theory Spec2Isabelle
  imports Complex_Main "HOL-Library.Multiset" "HOL-Library.Product_Lexorder"
begin

section \<open>Entity model (types.ts)\<close>

text \<open>
  The TypeScript interfaces of \<^verbatim>\<open>types.ts\<close> become records. A JavaScript
  \<^verbatim>\<open>number\<close> held in the game state is a finite binary64 value, read as the real
  number it denotes. The ledger, ranking and audit functions are the source's
  expressions with every \<open>+\<close>, \<open>-\<close>, \<open>*\<close> and \<open>/\<close> followed by the rounding of
  binary64 arithmetic, defined in the next section; comparisons and
  \<^verbatim>\<open>Math.abs\<close> are exact. A number that is not finite can only come from a
  division, whose result has a type of its own.
  The field \<^verbatim>\<open>id\<close> of a rebuy and of a player is renamed (\<open>id\<close> is the identity
  function of HOL). An optional field is an \<open>option\<close>.
\<close>

datatype PaymentStatus = PAID | PENDING

record Rebuy =
  rebuy_id :: string
  amount :: real
  status :: PaymentStatus
  timestamp :: nat

record Player =
  player_id :: string
  name :: string
  buyInStatus :: PaymentStatus
  rebuys :: "Rebuy list"
  cashoutAmount :: "real option"

record GameConfig =
  buyInAmount :: real

record GameState =
  isStarted :: bool
  config :: GameConfig
  players :: "Player list"
  finished :: bool

definition HOUSE_FEE_FIXED :: real where
  "HOUSE_FEE_FIXED = 10"

definition INITIAL_STATE :: GameState where
  "INITIAL_STATE =
     \<lparr>isStarted = False, config = \<lparr>buyInAmount = 50\<rparr>, players = [], finished = False\<rparr>"

section \<open>Binary64 arithmetic\<close>

text \<open>
  The numbers of the source are IEEE 754 binary64 values, and every \<open>+\<close> and \<open>-\<close>
  returns the representable value nearest to the exact result, ties going to the even
  significand. \<open>fl\<close> is that rounding for results in the normal range (no overflow,
  no subnormals): \<open>binade\<close> finds the exponent \<open>e\<close> with \<open>2^e \<le> |x| < 2^(e+1)\<close>, in
  at most as many steps as binary64 has exponents, and the result is the multiple of
  \<open>2^(e-52)\<close> nearest to \<open>x\<close>. A sum or difference of \<open>2^1024\<close> or more in
  absolute value, which binary64 turns into an infinity, stays a finite number here:
  the model is about amounts below that.
\<close>

fun binade :: "nat \<Rightarrow> real \<Rightarrow> int" where
  "binade 0 x = 0"
| "binade (Suc n) x =
     (if 2 \<le> x then binade n (x / 2) + 1
      else if x < 1 then binade n (x * 2) - 1
      else 0)"

definition roundHalfEven :: "real \<Rightarrow> int" where
  "roundHalfEven q =
     (let f = \<lfloor>q\<rfloor>; d = q - of_int f
      in if d < 1 / 2 then f
         else if 1 / 2 < d then f + 1
         else if even f then f else f + 1)"

definition fl :: "real \<Rightarrow> real" where
  "fl x =
     (if x = 0 then 0
      else let u = 2 powi (binade 2200 \<bar>x\<bar> - 52)
           in of_int (roundHalfEven (x / u)) * u)"

text \<open>
  A product or a quotient can also fall below the normal range, where the binary64
  values are the multiples of \<open>2^(-1074)\<close>, or, for a quotient, above it. \<open>round64\<close>
  is the rounding with that lower end: the exponent is at least \<open>-1022\<close>. A quotient of
  two binary64 values lies between \<open>2^(-2098)\<close> and \<open>2^2098\<close>, within the reach of
  \<open>binade 2200\<close>.
\<close>

definition round64 :: "real \<Rightarrow> real" where
  "round64 x =
     (if x = 0 then 0
      else let u = 2 powi (max (binade 2200 \<bar>x\<bar>) (- 1022) - 52)
           in of_int (roundHalfEven (x / u)) * u)"

text \<open>
  The result of a division: the rounded quotient, an infinity if that is \<open>2^1024\<close> or
  more in absolute value, and for a divisor zero one of the three values that are not
  finite (the zero is taken as \<open>+0\<close>: no sum or difference of the source gives \<open>-0\<close>).
\<close>

datatype number = Finite real | PosInfinity | NegInfinity | NaN

definition overflow64 :: "real \<Rightarrow> number" where
  "overflow64 r =
     (if 2 ^ 1024 \<le> r then PosInfinity else if r \<le> - (2 ^ 1024) then NegInfinity else Finite r)"

definition div64 :: "real \<Rightarrow> real \<Rightarrow> number" where
  "div64 a b =
     (if b = 0 then (if a = 0 then NaN else if 0 < a then PosInfinity else NegInfinity)
      else overflow64 (round64 (a / b)))"

text \<open>\<^verbatim>\<open>===\<close> and \<open>-\<close> on such results: \<^verbatim>\<open>NaN\<close> equals nothing and absorbs.\<close>

fun strictEquals :: "number \<Rightarrow> number \<Rightarrow> bool" where
  "strictEquals (Finite x) (Finite y) = (x = y)"
| "strictEquals PosInfinity PosInfinity = True"
| "strictEquals NegInfinity NegInfinity = True"
| "strictEquals a b = False"

fun minus64 :: "number \<Rightarrow> number \<Rightarrow> number" where
  "minus64 (Finite x) (Finite y) = Finite (fl (x - y))"
| "minus64 NaN b = NaN"
| "minus64 a NaN = NaN"
| "minus64 PosInfinity PosInfinity = NaN"
| "minus64 NegInfinity NegInfinity = NaN"
| "minus64 PosInfinity b = PosInfinity"
| "minus64 NegInfinity b = NegInfinity"
| "minus64 (Finite x) PosInfinity = NegInfinity"
| "minus64 (Finite x) NegInfinity = PosInfinity"

section \<open>Ghost players\<close>

text \<open>
  \<^verbatim>\<open>String.prototype.trim\<close> removes white space and line terminators from both
  ends of a string. Strings are lists of 8-bit characters here, so the white space
  characters are the six ASCII ones and the no-break space.
\<close>

definition isWhiteSpace :: "char \<Rightarrow> bool" where
  "isWhiteSpace c =
     (c = CHR 0x09 \<or> c = CHR 0x0A \<or> c = CHR 0x0B \<or> c = CHR 0x0C \<or> c = CHR 0x0D
      \<or> c = CHR 0x20 \<or> c = CHR 0xA0)"

definition trim :: "string \<Rightarrow> string" where
  "trim s = rev (dropWhile isWhiteSpace (rev (dropWhile isWhiteSpace s)))"

text \<open>The filter predicate \<^verbatim>\<open>p => p.name && p.name.trim() !== ''\<close>.\<close>

definition isValidPlayer :: "Player \<Rightarrow> bool" where
  "isValidPlayer p = (name p \<noteq> [] \<and> trim (name p) \<noteq> [])"

definition validPlayers :: "GameState \<Rightarrow> Player list" where
  "validPlayers gameState = filter isValidPlayer (players gameState)"

section \<open>Ledger engine\<close>

record Totals =
  totalBuyIns :: real
  totalRebuys :: real
  totalFees :: real
  totalChips :: real
  totalPaid :: real
  totalPending :: real

text \<open>The body of the inner \<^verbatim>\<open>p.rebuys.forEach\<close> of \<^verbatim>\<open>calculateTotals\<close>.\<close>

definition rebuyTotals :: "Totals \<Rightarrow> Rebuy \<Rightarrow> Totals" where
  "rebuyTotals t r =
     (let t = t\<lparr>totalRebuys := fl (totalRebuys t + amount r)\<rparr>;
          t = t\<lparr>totalChips := fl (totalChips t + amount r)\<rparr>
      in if status r = PAID then t\<lparr>totalPaid := fl (totalPaid t + amount r)\<rparr>
         else t\<lparr>totalPending := fl (totalPending t + amount r)\<rparr>)"

text \<open>The body of the outer \<^verbatim>\<open>validPlayers.forEach\<close>.\<close>

definition playerTotals :: "GameState \<Rightarrow> Totals \<Rightarrow> Player \<Rightarrow> Totals" where
  "playerTotals gameState t p =
     (let t = t\<lparr>totalBuyIns := fl (totalBuyIns t + buyInAmount (config gameState))\<rparr>;
          t = t\<lparr>totalFees := fl (totalFees t + HOUSE_FEE_FIXED)\<rparr>;
          buyInChips = fl (buyInAmount (config gameState) - HOUSE_FEE_FIXED);
          t = t\<lparr>totalChips := fl (totalChips t + buyInChips)\<rparr>;
          t = (if buyInStatus p = PAID
               then t\<lparr>totalPaid := fl (totalPaid t + buyInAmount (config gameState))\<rparr>
               else t\<lparr>totalPending := fl (totalPending t + buyInAmount (config gameState))\<rparr>)
      in foldl rebuyTotals t (rebuys p))"

definition calculateTotals :: "GameState \<Rightarrow> Totals" where
  "calculateTotals gameState =
     foldl (playerTotals gameState)
       \<lparr>totalBuyIns = 0, totalRebuys = 0, totalFees = 0, totalChips = 0,
        totalPaid = 0, totalPending = 0\<rparr>
       (validPlayers gameState)"

text \<open>
  The per-player cash figures, computed by the same three expressions in the debtors
  list, the player detail view and the dashboard list. \<^verbatim>\<open>reduce\<close> is a left fold.
\<close>

definition paidCash64 :: "GameState \<Rightarrow> Player \<Rightarrow> real" where
  "paidCash64 gameState player =
     fl ((if buyInStatus player = PAID then buyInAmount (config gameState) else 0)
         + foldl (\<lambda>sum r. if status r = PAID then fl (sum + amount r) else sum) 0 (rebuys player))"

definition totalCostCash64 :: "GameState \<Rightarrow> Player \<Rightarrow> real" where
  "totalCostCash64 gameState player =
     fl (buyInAmount (config gameState)
         + foldl (\<lambda>sum r. fl (sum + amount r)) 0 (rebuys player))"

definition pendingCash64 :: "GameState \<Rightarrow> Player \<Rightarrow> real" where
  "pendingCash64 gameState player =
     fl (totalCostCash64 gameState player - paidCash64 gameState player)"

text \<open>The same three expressions read over exact numbers, without the rounding.\<close>

definition paidCash :: "GameState \<Rightarrow> Player \<Rightarrow> real" where
  "paidCash gameState player =
     (if buyInStatus player = PAID then buyInAmount (config gameState) else 0)
     + foldl (\<lambda>sum r. if status r = PAID then sum + amount r else sum) 0 (rebuys player)"

definition totalCostCash :: "GameState \<Rightarrow> Player \<Rightarrow> real" where
  "totalCostCash gameState player =
     buyInAmount (config gameState) + foldl (\<lambda>sum r. sum + amount r) 0 (rebuys player)"

definition pendingCash :: "GameState \<Rightarrow> Player \<Rightarrow> real" where
  "pendingCash gameState player = totalCostCash gameState player - paidCash gameState player"

record Debtor =
  debtor_id :: string
  debtor_name :: string
  pending :: real

definition debtors :: "GameState \<Rightarrow> Debtor list" where
  "debtors gameState =
     filter (\<lambda>p. pending p > 0)
       (map (\<lambda>player. \<lparr>debtor_id = player_id player, debtor_name = name player,
                        pending = pendingCash64 gameState player\<rparr>)
            (validPlayers gameState))"

section \<open>Game lifecycle controller: the actions\<close>

text \<open>
  Each action is the state updater the source passes to \<^verbatim>\<open>setGameState\<close>, as a
  function of the previous state. Values the source draws from its environment
  (\<^verbatim>\<open>crypto.randomUUID()\<close>, \<^verbatim>\<open>Date.now()\<close>, the text of the name field) are
  parameters. \<^verbatim>\<open>addRebuy\<close> is the one action that can reject its input: it shows an
  alert and returns before any state update, which is the error value \<open>InvalidAmount\<close>.
\<close>

datatype error = InvalidAmount

definition handleStartGame :: "real \<Rightarrow> GameState \<Rightarrow> GameState" where
  "handleStartGame amt prev =
     prev\<lparr>isStarted := True, finished := False, config := \<lparr>buyInAmount = amt\<rparr>\<rparr>"

definition addPlayer :: "string \<Rightarrow> string \<Rightarrow> GameState \<Rightarrow> GameState" where
  "addPlayer newPlayerName uuid prev =
     (if trim newPlayerName = [] then prev
      else let newPlayer = \<lparr>player_id = uuid, name = trim newPlayerName,
                              buyInStatus = PENDING, rebuys = [], cashoutAmount = None\<rparr>
           in prev\<lparr>players := players prev @ [newPlayer]\<rparr>)"

definition updatePlayerStatus :: "string \<Rightarrow> PaymentStatus \<Rightarrow> GameState \<Rightarrow> GameState" where
  "updatePlayerStatus ident st prev =
     prev\<lparr>players := map (\<lambda>p. if player_id p = ident then p\<lparr>buyInStatus := st\<rparr> else p)
                           (players prev)\<rparr>"

definition addRebuy :: "string \<Rightarrow> real \<Rightarrow> string \<Rightarrow> nat \<Rightarrow> GameState \<Rightarrow> error + GameState" where
  "addRebuy playerId amt uuid now prev =
     (if amt < 1 then Inl InvalidAmount
      else let newRebuy = \<lparr>rebuy_id = uuid, amount = amt, status = PENDING, timestamp = now\<rparr>
           in Inr (prev\<lparr>players :=
                     map (\<lambda>p. if player_id p = playerId
                               then p\<lparr>rebuys := rebuys p @ [newRebuy]\<rparr> else p)
                         (players prev)\<rparr>))"

definition removeRebuy :: "string \<Rightarrow> string \<Rightarrow> GameState \<Rightarrow> GameState" where
  "removeRebuy playerId rebuyId prev =
     prev\<lparr>players :=
       map (\<lambda>p. if player_id p = playerId
                 then p\<lparr>rebuys := filter (\<lambda>r. rebuy_id r \<noteq> rebuyId) (rebuys p)\<rparr> else p)
           (players prev)\<rparr>"

definition toggleRebuyStatus :: "string \<Rightarrow> string \<Rightarrow> GameState \<Rightarrow> GameState" where
  "toggleRebuyStatus playerId rebuyId prev =
     prev\<lparr>players :=
       map (\<lambda>p. if player_id p = playerId
                 then p\<lparr>rebuys :=
                        map (\<lambda>r. if rebuy_id r = rebuyId
                                  then r\<lparr>status := (if status r = PAID then PENDING else PAID)\<rparr>
                                  else r)
                            (rebuys p)\<rparr>
                 else p)
           (players prev)\<rparr>"

definition removePlayer :: "string \<Rightarrow> GameState \<Rightarrow> GameState" where
  "removePlayer playerId prev =
     prev\<lparr>players := filter (\<lambda>p. player_id p \<noteq> playerId) (players prev)\<rparr>"

definition confirmResetGame :: "GameState \<Rightarrow> GameState" where
  "confirmResetGame prev =
     \<lparr>isStarted = False, config = \<lparr>buyInAmount = 50\<rparr>, players = [], finished = False\<rparr>"

definition submitCashout :: "string \<Rightarrow> real \<Rightarrow> GameState \<Rightarrow> GameState" where
  "submitCashout playerId amt prev =
     prev\<lparr>players := map (\<lambda>p. if player_id p = playerId then p\<lparr>cashoutAmount := Some amt\<rparr> else p)
                           (players prev)\<rparr>"

definition finishGame :: "GameState \<Rightarrow> GameState" where
  "finishGame prev = prev\<lparr>finished := True\<rparr>"

text \<open>
  The command surface. \<open>step\<close> gives the outcome of one command; \<open>run\<close> is the
  content of the store afterwards: a rejected command never reaches
  \<^verbatim>\<open>setGameState\<close>, so the store keeps the previous state.
\<close>

datatype Command =
    StartGame real
  | AddPlayer string string
  | RemovePlayer string
  | SetBuyInStatus string PaymentStatus
  | AddRebuy string real string nat
  | RemoveRebuy string string
  | ToggleRebuyStatus string string
  | SubmitCashout string real
  | FinishGame
  | ResetGame

fun step :: "GameState \<Rightarrow> Command \<Rightarrow> error + GameState" where
  "step g (StartGame amt) = Inr (handleStartGame amt g)"
| "step g (AddPlayer newPlayerName uuid) = Inr (addPlayer newPlayerName uuid g)"
| "step g (RemovePlayer playerId) = Inr (removePlayer playerId g)"
| "step g (SetBuyInStatus ident st) = Inr (updatePlayerStatus ident st g)"
| "step g (AddRebuy playerId amt uuid now) = addRebuy playerId amt uuid now g"
| "step g (RemoveRebuy playerId rebuyId) = Inr (removeRebuy playerId rebuyId g)"
| "step g (ToggleRebuyStatus playerId rebuyId) = Inr (toggleRebuyStatus playerId rebuyId g)"
| "step g (SubmitCashout playerId amt) = Inr (submitCashout playerId amt g)"
| "step g FinishGame = Inr (finishGame g)"
| "step g ResetGame = Inr (confirmResetGame g)"

definition run :: "GameState \<Rightarrow> Command \<Rightarrow> GameState" where
  "run g c = (case step g c of Inl e \<Rightarrow> g | Inr g' \<Rightarrow> g')"

section \<open>Settlement and ranking engine\<close>

text \<open>
  \<^verbatim>\<open>p.cashoutAmount || 0\<close>: an absent cashout and the falsy number \<open>0\<close> both
  give \<open>0\<close>.
\<close>

definition orZero :: "real option \<Rightarrow> real" where
  "orZero v = (case v of None \<Rightarrow> 0 | Some a \<Rightarrow> if a = 0 then 0 else a)"

record RankedPlayer = Player +
  investedChips :: real
  out :: real
  performanceRatio :: number
  rankingFee :: real
  net :: real

text \<open>
  The function mapped over the valid players: the player's fields and five derived
  ones. The literal \<^verbatim>\<open>0.10\<close> is the binary64 value nearest to one tenth.
\<close>

definition rankRow :: "GameState \<Rightarrow> Player \<Rightarrow> RankedPlayer" where
  "rankRow gameState p =
     (let buyInChips = fl (buyInAmount (config gameState) - HOUSE_FEE_FIXED);
          rebuysTotal = foldl (\<lambda>sum r. fl (sum + amount r)) 0 (rebuys p);
          invested = fl (buyInChips + rebuysTotal);
          outv = orZero (cashoutAmount p);
          ratio = (if invested > 0 then div64 outv invested else Finite 0);
          fee = round64 (outv * fl (1 / 10));
          netv = fl (outv - fee)
      in \<lparr>player_id = player_id p, name = name p, buyInStatus = buyInStatus p,
          rebuys = rebuys p, cashoutAmount = cashoutAmount p,
          investedChips = invested, out = outv, performanceRatio = ratio,
          rankingFee = fee, net = netv\<rparr>)"

text \<open>The comparator passed to \<^verbatim>\<open>sort\<close>; a negative result puts \<open>a\<close> first.\<close>

definition compareRanked :: "RankedPlayer \<Rightarrow> RankedPlayer \<Rightarrow> number" where
  "compareRanked a b =
     (if strictEquals (performanceRatio a) (performanceRatio b) then Finite (fl (out b - out a))
      else minus64 (performanceRatio b) (performanceRatio a))"

text \<open>
  \<^verbatim>\<open>Array.prototype.sort\<close> belongs to the language, not to the repository.
  ECMAScript (2019 and later) specifies it as a stable sort by the comparator, a
  comparator result \<^verbatim>\<open>NaN\<close> counting as \<open>0\<close>; it is modelled by the stable
  insertion sort: each element, taken from the right, goes in front of the first
  element it does not have to follow.
\<close>

definition notPositive :: "number \<Rightarrow> bool" where
  "notPositive v =
     (case v of Finite r \<Rightarrow> r \<le> 0 | PosInfinity \<Rightarrow> False | NegInfinity \<Rightarrow> True | NaN \<Rightarrow> True)"

fun insertBy :: "('a \<Rightarrow> 'a \<Rightarrow> number) \<Rightarrow> 'a \<Rightarrow> 'a list \<Rightarrow> 'a list" where
  "insertBy cmp x [] = [x]"
| "insertBy cmp x (y # ys) =
     (if notPositive (cmp x y) then x # y # ys else y # insertBy cmp x ys)"

definition Array_sort :: "('a \<Rightarrow> 'a \<Rightarrow> number) \<Rightarrow> 'a list \<Rightarrow> 'a list" where
  "Array_sort cmp xs = foldr (insertBy cmp) xs []"

definition rankedPlayers :: "GameState \<Rightarrow> RankedPlayer list" where
  "rankedPlayers gameState =
     Array_sort compareRanked (map (rankRow gameState) (validPlayers gameState))"

definition getPoints :: "nat \<Rightarrow> nat" where
  "getPoints index = (if index = 0 then 20 else if index = 1 then 15 else if index = 2 then 10 else 5)"

section \<open>Chip-conservation auditor\<close>

text \<open>The literal \<^verbatim>\<open>0.1\<close> of the tolerance is the binary64 value nearest to one tenth.\<close>

definition totalCashoutDeclared :: "GameState \<Rightarrow> real" where
  "totalCashoutDeclared gameState =
     foldl (\<lambda>sum p. fl (sum + orZero (cashoutAmount p))) 0 (validPlayers gameState)"

definition chipsDifference :: "GameState \<Rightarrow> real" where
  "chipsDifference gameState =
     fl (totalChips (calculateTotals gameState) - totalCashoutDeclared gameState)"

definition isBalanced :: "GameState \<Rightarrow> bool" where
  "isBalanced gameState = (\<bar>chipsDifference gameState\<bar> < fl (1 / 10))"

text \<open>
  The line shown under the two totals when the audit is not balanced:
  \<^verbatim>\<open>Faltam <difference>\<close> (chips missing) or \<^verbatim>\<open>Fichas a mais <|difference|>\<close>
  (chips in excess).
\<close>

datatype DifferenceLine = Faltam real | FichasAMais real

definition differenceLine :: "GameState \<Rightarrow> DifferenceLine option" where
  "differenceLine gameState =
     (if \<not> isBalanced gameState
      then Some (if chipsDifference gameState > 0 then Faltam (chipsDifference gameState)
                 else FichasAMais \<bar>chipsDifference gameState\<bar>)
      else None)"

section \<open>The views\<close>

text \<open>
  The audit and the ranking are computed by the render function only in the branch
  \<^verbatim>\<open>view === 'RANKING' || view === 'CASHOUT'\<close>.
\<close>

datatype View = SETUP | DASHBOARD | PLAYER_DETAIL | CASHOUT | RANKING



text \<open>
  Which view offers which action. The setup screen has the start button only. The
  dashboard, which is also what \<open>PLAYER_DETAIL\<close> renders when the selected player no
  longer exists, adds players, opens a player and opens the cashout view. The player
  detail view changes the buy-in status and the rebuys of the selected player and
  removes that player. The cashout view takes the cashout amounts and has the only
  button that calls \<^verbatim>\<open>finishGame\<close>. The reset dialog is never shown on the setup
  screen. Loading the page restores the saved state, which is the current one, without
  its ghost players, and leaves the setup screen only for a started game.
  The selected player id and the dialog flags are left out: the relation allows every
  transition of the source, and some more.
\<close>

definition viewOnLoad :: "GameState \<Rightarrow> View" where
  "viewOnLoad parsed =
     (if isStarted parsed then (if finished parsed then RANKING else DASHBOARD) else SETUP)"

definition sanitize :: "GameState \<Rightarrow> GameState" where
  "sanitize parsed = parsed\<lparr>players := filter isValidPlayer (players parsed)\<rparr>"

inductive uiStep :: "View \<times> GameState \<Rightarrow> View \<times> GameState \<Rightarrow> bool" where
  startClicked: "uiStep (SETUP, g) (DASHBOARD, handleStartGame amt g)"
| playerAdded:
    "v = DASHBOARD \<or> v = PLAYER_DETAIL \<Longrightarrow> uiStep (v, g) (v, addPlayer newPlayerName uuid g)"
| playerClicked: "v = DASHBOARD \<or> v = PLAYER_DETAIL \<Longrightarrow> uiStep (v, g) (PLAYER_DETAIL, g)"
| encerrarClicked: "v = DASHBOARD \<or> v = PLAYER_DETAIL \<Longrightarrow> uiStep (v, g) (CASHOUT, g)"
| backClicked: "v = PLAYER_DETAIL \<or> v = CASHOUT \<Longrightarrow> uiStep (v, g) (DASHBOARD, g)"
| statusClicked: "uiStep (PLAYER_DETAIL, g) (PLAYER_DETAIL, updatePlayerStatus playerId st g)"
| rebuyAdded: "uiStep (PLAYER_DETAIL, g) (PLAYER_DETAIL, run g (AddRebuy playerId amt uuid now))"
| rebuyToggled: "uiStep (PLAYER_DETAIL, g) (PLAYER_DETAIL, toggleRebuyStatus playerId rebuyId g)"
| rebuyRemoved: "uiStep (PLAYER_DETAIL, g) (PLAYER_DETAIL, removeRebuy playerId rebuyId g)"
| playerRemoved: "uiStep (PLAYER_DETAIL, g) (DASHBOARD, removePlayer playerId g)"
| cashoutEntered: "uiStep (CASHOUT, g) (CASHOUT, submitCashout playerId amt g)"
| finishClicked: "uiStep (CASHOUT, g) (RANKING, finishGame g)"
| resetConfirmed: "v \<noteq> SETUP \<Longrightarrow> uiStep (v, g) (SETUP, confirmResetGame g)"
| pageLoaded: "uiStep (v, g) (viewOnLoad (sanitize g), sanitize g)"

code_pred uiStep .

inductive reachable :: "View \<times> GameState \<Rightarrow> bool" where
  initial: "reachable (SETUP, INITIAL_STATE)"
| move: "reachable a \<Longrightarrow> uiStep a b \<Longrightarrow> reachable b"

code_pred reachable .

section \<open>Words of the specification\<close>


text \<open>
  The order of the numbers: \<^verbatim>\<open>-Infinity\<close> is below every finite number and these
  are below \<^verbatim>\<open>Infinity\<close>; \<^verbatim>\<open>NaN\<close> is neither below nor above anything.
\<close>

fun lessNumber :: "number \<Rightarrow> number \<Rightarrow> bool" where
  "lessNumber (Finite x) (Finite y) = (x < y)"
| "lessNumber NegInfinity (Finite y) = True"
| "lessNumber NegInfinity PosInfinity = True"
| "lessNumber (Finite x) PosInfinity = True"
| "lessNumber a b = False"

text \<open>
  The order of the ranking: a row stands before another if its performance ratio is
  larger, or the ratios are equal and its cashout is at least as large.
\<close>

definition ranksBefore :: "RankedPlayer \<Rightarrow> RankedPlayer \<Rightarrow> bool" where
  "ranksBefore a b =
     (lessNumber (performanceRatio b) (performanceRatio a)
      \<or> (performanceRatio a = performanceRatio b \<and> out b \<le> out a))"



text \<open>The lifecycle invariant of the game state.\<close>

definition finishedImpliesStarted :: "GameState \<Rightarrow> bool" where
  "finishedImpliesStarted g = (finished g \<longrightarrow> isStarted g)"

text \<open>
  What the views guarantee about the game they show: only the setup screen shows a
  game that is not started.
\<close>

definition startedUnlessSetup :: "View \<times> GameState \<Rightarrow> bool" where
  "startedUnlessSetup a = ((fst a \<noteq> SETUP \<longrightarrow> isStarted (snd a)) \<and> finishedImpliesStarted (snd a))"

section \<open>The grid of the rounding\<close>

text \<open>
  Every value of \<open>fl\<close> and of \<open>round64\<close> is a whole multiple of \<open>2^(-2252)\<close>, the
  smallest unit the exponent search can reach; it lies far below the smallest binary64
  value. The numbers on this grid include all binary64 values.
\<close>

definition grid :: real where
  "grid = 2 powi (- 2252)"

definition onGrid :: "real \<Rightarrow> bool" where
  "onGrid x = (of_int \<lfloor>x / grid\<rfloor> * grid = x)"

text \<open>
  The rows whose two sort keys are numbers that the rounding can return: the ratio is
  not \<^verbatim>\<open>NaN\<close>, and a finite ratio and the cashout are on the grid.
\<close>

definition rankable :: "RankedPlayer \<Rightarrow> bool" where
  "rankable r =
     ((case performanceRatio r of
         Finite x \<Rightarrow> onGrid x | PosInfinity \<Rightarrow> True | NegInfinity \<Rightarrow> True | NaN \<Rightarrow> False)
      \<and> onGrid (out r))"

section \<open>Example states\<close>

text \<open>
  A started game with a buy-in of 50 and two players: Ana has paid her buy-in, owes one
  rebuy of 30 and has declared a cashout of 80; Bia has not paid and has no cashout.
\<close>

definition demoGame :: GameState where
  "demoGame =
     \<lparr>isStarted = True, config = \<lparr>buyInAmount = 50\<rparr>,
      players =
        [\<lparr>player_id = ''p1'', name = ''Ana'', buyInStatus = PAID,
          rebuys = [\<lparr>rebuy_id = ''r1'', amount = 30, status = PENDING, timestamp = 1\<rparr>],
          cashoutAmount = Some 80\<rparr>,
         \<lparr>player_id = ''p2'', name = ''Bia'', buyInStatus = PENDING,
          rebuys = [], cashoutAmount = None\<rparr>],
      finished = False\<rparr>"

text \<open>
  A game whose ranking has ties: Ana and Bia both cash out 40 on 40 chips (ratio 1),
  Duda cashes out 80 on 80 chips (ratio 1), Caio cashes out 80 on 40 chips (ratio 2).
  The player between Ana and Bia has a blank name.
\<close>

definition tieGame :: GameState where
  "tieGame =
     \<lparr>isStarted = True, config = \<lparr>buyInAmount = 50\<rparr>,
      players =
        [\<lparr>player_id = ''p1'', name = ''Ana'', buyInStatus = PAID, rebuys = [],
          cashoutAmount = Some 40\<rparr>,
         \<lparr>player_id = ''p0'', name = ''  '', buyInStatus = PAID, rebuys = [],
          cashoutAmount = Some 500\<rparr>,
         \<lparr>player_id = ''p2'', name = ''Bia'', buyInStatus = PAID, rebuys = [],
          cashoutAmount = Some 40\<rparr>,
         \<lparr>player_id = ''p3'', name = ''Caio'', buyInStatus = PENDING, rebuys = [],
          cashoutAmount = Some 80\<rparr>,
         \<lparr>player_id = ''p4'', name = ''Duda'', buyInStatus = PAID,
          rebuys = [\<lparr>rebuy_id = ''r1'', amount = 40, status = PAID, timestamp = 3\<rparr>],
          cashoutAmount = Some 80\<rparr>],
      finished = False\<rparr>"


text \<open>
  A game with a buy-in of 20 whose one player has not paid the buy-in and has two
  rebuys of 20.20, the first paid, the second pending. The amount is the binary64
  value nearest to 20.2, which is what \<^verbatim>\<open>Number("20.2")\<close> returns.
\<close>

definition centsPlayer :: Player where
  "centsPlayer =
     \<lparr>player_id = ''p1'', name = ''Ana'', buyInStatus = PENDING,
      rebuys = [\<lparr>rebuy_id = ''r1'', amount = fl (202 / 10), status = PAID, timestamp = 1\<rparr>,
                \<lparr>rebuy_id = ''r2'', amount = fl (202 / 10), status = PENDING, timestamp = 2\<rparr>],
      cashoutAmount = None\<rparr>"

definition centsGame :: GameState where
  "centsGame =
     \<lparr>isStarted = True, config = \<lparr>buyInAmount = 20\<rparr>, players = [centsPlayer],
      finished = False\<rparr>"

text \<open>
  The scenarios of the specification: one player with a pending buy-in of 50 (A), the
  same player after a rebuy of 30 that is then paid (B), two players on 40 chips each
  who cash out 20 and 80 (C), and the same two declaring 50 and 25 (D).
\<close>

definition scenarioA :: GameState where
  "scenarioA =
     \<lparr>isStarted = True, config = \<lparr>buyInAmount = 50\<rparr>,
      players = [\<lparr>player_id = ''p1'', name = ''Ana'', buyInStatus = PENDING, rebuys = [],
                  cashoutAmount = None\<rparr>],
      finished = False\<rparr>"

definition scenarioB :: GameState where
  "scenarioB = toggleRebuyStatus ''p1'' ''r1'' (run scenarioA (AddRebuy ''p1'' 30 ''r1'' 1))"

definition scenarioC :: GameState where
  "scenarioC =
     \<lparr>isStarted = True, config = \<lparr>buyInAmount = 50\<rparr>,
      players = [\<lparr>player_id = ''p1'', name = ''Ana'', buyInStatus = PAID, rebuys = [],
                  cashoutAmount = Some 20\<rparr>,
                 \<lparr>player_id = ''p2'', name = ''Bia'', buyInStatus = PAID, rebuys = [],
                  cashoutAmount = Some 80\<rparr>],
      finished = False\<rparr>"

definition scenarioD :: GameState where
  "scenarioD = submitCashout ''p2'' 25 (submitCashout ''p1'' 50 scenarioC)"




section \<open>Lists, folds and sums\<close>

lemma map_cond_id: "(\<And>x. x \<in> set xs \<Longrightarrow> f x = x) \<Longrightarrow> map f xs = xs"
  by (induction xs) auto

lemma filter_cond_id: "(\<And>x. x \<in> set xs \<Longrightarrow> P x) \<Longrightarrow> filter P xs = xs"
  by (induction xs) auto

lemma foldl_plus_sum_list:
  "foldl (\<lambda>s x. s + f x) a xs = a + sum_list (map f xs)" for a :: real
  by (induction xs arbitrary: a) simp_all

lemma foldl_paid_sum:
  "foldl (\<lambda>sum r. if status r = PAID then sum + amount r else sum) a rs
     = a + sum_list (map amount (filter (\<lambda>r. status r = PAID) rs))" for a :: real
  by (induction rs arbitrary: a) simp_all

section \<open>The valid players of the example states\<close>

lemma validPlayers_demoGame: "validPlayers demoGame = players demoGame"
  by (simp add: validPlayers_def demoGame_def isValidPlayer_def trim_def isWhiteSpace_def)

lemma validPlayers_tieGame:
  "validPlayers tieGame = [players tieGame ! 0, players tieGame ! 2, players tieGame ! 3, players tieGame ! 4]"
  by (simp add: validPlayers_def tieGame_def isValidPlayer_def trim_def isWhiteSpace_def)

lemma centsPlayer_valid: "centsPlayer \<in> set (validPlayers centsGame)"
  by (simp add: validPlayers_def centsGame_def isValidPlayer_def)
     (simp add: centsPlayer_def trim_def isWhiteSpace_def)

lemma validPlayers_submitCashout_demoGame:
  "validPlayers (submitCashout ''p2'' 30 demoGame) = players (submitCashout ''p2'' 30 demoGame)"
  by (simp add: validPlayers_def submitCashout_def demoGame_def isValidPlayer_def trim_def isWhiteSpace_def)




section \<open>Rejected rebuys\<close>

text \<open>
  C3. A rebuy amount strictly below 1 makes \<open>addRebuy\<close> fail with \<open>InvalidAmount\<close>;
  the store keeps the previous game state, and so every player keeps the length of
  the rebuy sequence.
\<close>

theorem addRebuy_rejects_small_amount:
  assumes "amt < 1"
  shows "addRebuy playerId amt uuid now g = Inl InvalidAmount
       \<and> run g (AddRebuy playerId amt uuid now) = g
       \<and> map (\<lambda>p. length (rebuys p)) (players (run g (AddRebuy playerId amt uuid now)))
           = map (\<lambda>p. length (rebuys p)) (players g)"
  using assms by (simp add: addRebuy_def run_def)

theorem addRebuy_rejects_small_amount_witness:
  "(1 / 2 :: real) < 1
   \<and> addRebuy ''p1'' (1 / 2) ''r2'' 2 demoGame = Inl InvalidAmount
   \<and> run demoGame (AddRebuy ''p1'' (1 / 2) ''r2'' 2) = demoGame
   \<and> map (\<lambda>p. length (rebuys p)) (players (run demoGame (AddRebuy ''p1'' (1 / 2) ''r2'' 2)))
       = [1, 0]"
  using addRebuy_rejects_small_amount [of "1 / 2" "''p1''" "''r2''" 2 demoGame]
  by (simp add: demoGame_def)

section \<open>The lifecycle invariant\<close>

text \<open>
  C5 as stated fails: \<open>finishGame\<close> sets \<open>finished\<close> whatever \<open>isStarted\<close> is, so
  \<open>FinishGame\<close> applied to the initial state, which satisfies the invariant, gives a
  finished game that was never started.
\<close>

theorem finishGame_before_start_counterexample:
  "finishedImpliesStarted INITIAL_STATE
   \<and> \<not> finishedImpliesStarted (run INITIAL_STATE FinishGame)"
  by (simp add: finishedImpliesStarted_def INITIAL_STATE_def run_def finishGame_def)

text \<open>
  C5, amended. \<open>finished \<Longrightarrow> isStarted\<close> holds in the initial state, and every command
  preserves it from any state that satisfies it, provided that \<open>FinishGame\<close> is applied
  to a started game.
\<close>

theorem finishedImpliesStarted_preserved:
  "finishedImpliesStarted INITIAL_STATE
   \<and> (finishedImpliesStarted g \<longrightarrow> (c = FinishGame \<longrightarrow> isStarted g) \<longrightarrow>
        finishedImpliesStarted (run g c))"
proof (intro conjI impI)
  show "finishedImpliesStarted INITIAL_STATE"
    by (simp add: finishedImpliesStarted_def INITIAL_STATE_def)
next
  assume inv: "finishedImpliesStarted g" and fin: "c = FinishGame \<longrightarrow> isStarted g"
  show "finishedImpliesStarted (run g c)"
  proof (cases c)
    case (StartGame amt)
    then show ?thesis
      by (simp add: run_def handleStartGame_def finishedImpliesStarted_def)
  next
    case (AddPlayer newPlayerName uuid)
    with inv show ?thesis
      by (simp add: run_def addPlayer_def finishedImpliesStarted_def Let_def)
  next
    case (RemovePlayer playerId)
    with inv show ?thesis
      by (simp add: run_def removePlayer_def finishedImpliesStarted_def)
  next
    case (SetBuyInStatus ident st)
    with inv show ?thesis
      by (simp add: run_def updatePlayerStatus_def finishedImpliesStarted_def)
  next
    case (AddRebuy playerId amt uuid now)
    with inv show ?thesis
      by (simp add: run_def addRebuy_def finishedImpliesStarted_def Let_def)
  next
    case (RemoveRebuy playerId rebuyId)
    with inv show ?thesis
      by (simp add: run_def removeRebuy_def finishedImpliesStarted_def)
  next
    case (ToggleRebuyStatus playerId rebuyId)
    with inv show ?thesis
      by (simp add: run_def toggleRebuyStatus_def finishedImpliesStarted_def)
  next
    case (SubmitCashout playerId amt)
    with inv show ?thesis
      by (simp add: run_def submitCashout_def finishedImpliesStarted_def)
  next
    case FinishGame
    with fin show ?thesis
      by (simp add: run_def finishGame_def finishedImpliesStarted_def)
  next
    case ResetGame
    then show ?thesis
      by (simp add: run_def confirmResetGame_def finishedImpliesStarted_def)
  qed
qed

text \<open>
  At the example state, a started game: \<open>FinishGame\<close> finishes it and keeps the
  invariant; and \<open>StartGame\<close> keeps it from the initial state.
\<close>

theorem finishedImpliesStarted_preserved_witness:
  "finishedImpliesStarted demoGame \<and> isStarted demoGame
   \<and> finished (run demoGame FinishGame) \<and> finishedImpliesStarted (run demoGame FinishGame)
   \<and> finishedImpliesStarted (run INITIAL_STATE (StartGame 50))"
proof -
  have h1: "finishedImpliesStarted demoGame" and h2: "isStarted demoGame"
    by (simp_all add: finishedImpliesStarted_def demoGame_def)
  have f: "finished (run demoGame FinishGame)"
    by (simp add: run_def finishGame_def)
  from finishedImpliesStarted_preserved [of demoGame FinishGame] h1 h2
  have r1: "finishedImpliesStarted (run demoGame FinishGame)"
    by blast
  from finishedImpliesStarted_preserved [of INITIAL_STATE "StartGame 50"]
  have r2: "finishedImpliesStarted (run INITIAL_STATE (StartGame 50))"
    by blast
  from h1 h2 f r1 r2 show ?thesis by blast
qed

subsection \<open>Where the views call \<^verbatim>\<open>finishGame\<close>\<close>

text \<open>
  The source calls \<^verbatim>\<open>finishGame\<close> from the cashout view only, and shows a view other
  than the setup screen only for a started game. So the invariant holds in every state
  the application reaches from its initial one.
\<close>

lemma uiStep_startedUnlessSetup: "uiStep a b \<Longrightarrow> startedUnlessSetup a \<Longrightarrow> startedUnlessSetup b"
  by (induction rule: uiStep.induct)
     (auto simp: startedUnlessSetup_def finishedImpliesStarted_def handleStartGame_def addPlayer_def Let_def
        updatePlayerStatus_def run_def addRebuy_def toggleRebuyStatus_def removeRebuy_def
        removePlayer_def submitCashout_def finishGame_def confirmResetGame_def viewOnLoad_def
        sanitize_def)

lemma reachable_startedUnlessSetup: "reachable a \<Longrightarrow> startedUnlessSetup a"
proof (induction rule: reachable.induct)
  case initial
  show ?case
    by (simp add: startedUnlessSetup_def finishedImpliesStarted_def INITIAL_STATE_def)
next
  case (move a b)
  from move.hyps(2) move.IH show ?case
    by (rule uiStep_startedUnlessSetup)
qed

lemma reachable_finishedImpliesStarted: "reachable (v, g) \<Longrightarrow> finishedImpliesStarted g"
  using reachable_startedUnlessSetup [of "(v, g)"] by (simp add: startedUnlessSetup_def)

lemma reachable_example:
  "reachable (RANKING, finishGame (handleStartGame 50 INITIAL_STATE))"
proof -
  have "reachable (DASHBOARD, handleStartGame 50 INITIAL_STATE)"
    by (rule reachable.move [OF reachable.initial uiStep.startClicked])
  then have "reachable (CASHOUT, handleStartGame 50 INITIAL_STATE)"
    by (rule reachable.move) (rule uiStep.encerrarClicked, simp)
  then show ?thesis
    by (rule reachable.move) (rule uiStep.finishClicked)
qed

section \<open>Paid, pending and total cash of a player\<close>

lemma paidCash_sum:
  "paidCash g p = (if buyInStatus p = PAID then buyInAmount (config g) else 0)
     + (\<Sum>r\<leftarrow>filter (\<lambda>r. status r = PAID) (rebuys p). amount r)"
  by (simp add: paidCash_def foldl_paid_sum)

lemma totalCostCash_sum:
  "totalCostCash g p = buyInAmount (config g) + (\<Sum>r\<leftarrow>rebuys p. amount r)"
  by (simp add: totalCostCash_def foldl_plus_sum_list)

subsection \<open>The rounding at known values\<close>

text \<open>
  \<open>0.1\<close> is the binary64 value \<open>3602879701896397 / 2^55\<close>, and \<open>0.1 + 0.2\<close> is
  \<open>0.30000000000000004\<close>, not the binary64 value of \<open>0.3\<close>.
\<close>

lemma fl_one_tenth: "fl (1 / 10) = 3602879701896397 / 36028797018963968"
  by (simp add: fl_def roundHalfEven_def Let_def eval_nat_numeral)

lemma fl_tenth_plus_fifth:
  "fl (fl (1 / 10) + fl (2 / 10)) = 5404319552844596 / 18014398509481984"
  by (simp add: fl_def roundHalfEven_def Let_def eval_nat_numeral)

lemma fl_tenth_plus_fifth_not_three_tenths:
  "fl (fl (1 / 10) + fl (2 / 10)) \<noteq> fl (3 / 10)"
  by (simp add: fl_def roundHalfEven_def Let_def eval_nat_numeral)

subsection \<open>Rounding is exact on whole numbers below \<open>2^53\<close>\<close>

lemma binade_nonneg: "1 \<le> x \<Longrightarrow> 0 \<le> binade n x"
proof (induction n arbitrary: x)
  case 0
  then show ?case by simp
next
  case (Suc n)
  show ?case
  proof (cases "2 \<le> x")
    case True
    then have "0 \<le> binade n (x / 2)"
      by (intro Suc.IH) simp
    with True show ?thesis by simp
  next
    case False
    with Suc.prems show ?thesis by simp
  qed
qed

lemma binade_upper: "1 \<le> x \<Longrightarrow> x < 2 ^ Suc k \<Longrightarrow> binade n x \<le> int k"
proof (induction n arbitrary: x k)
  case 0
  then show ?case by simp
next
  case (Suc n)
  show ?case
  proof (cases "2 \<le> x")
    case True
    with Suc.prems(2) obtain k' where k: "k = Suc k'"
      by (cases k) auto
    from True Suc.prems(2) have "binade n (x / 2) \<le> int k'"
      unfolding k by (intro Suc.IH) simp_all
    with True k show ?thesis by simp
  next
    case False
    with Suc.prems show ?thesis by simp
  qed
qed

lemma roundHalfEven_of_int: "roundHalfEven (of_int z) = z"
  by (simp add: roundHalfEven_def)

lemma fl_of_int:
  assumes "\<bar>z\<bar> < 2 ^ 53"
  shows "fl (of_int z) = of_int z"
proof (cases "z = 0")
  case True
  then show ?thesis by (simp add: fl_def)
next
  case False
  define x :: real where "x = \<bar>of_int z\<bar>"
  have xz: "x = of_int \<bar>z\<bar>"
    by (simp add: x_def)
  from False have "1 \<le> \<bar>z\<bar>"
    by simp
  then have x1: "1 \<le> x"
    unfolding xz by simp
  from assms have "real_of_int \<bar>z\<bar> < of_int (2 ^ 53)"
    by (simp only: of_int_less_iff)
  then have x2: "x < 2 ^ Suc 52"
    unfolding xz by simp
  define j where "j = nat (52 - binade 2200 x)"
  have e: "binade 2200 x - 52 = - int j"
    using binade_upper [OF x1 x2, of 2200] unfolding j_def by simp
  have u: "(2::real) powi (binade 2200 x - 52) = inverse (2 ^ j)"
    unfolding e by (simp add: power_int_minus)
  have q: "real_of_int z / inverse (2 ^ j) = of_int (z * 2 ^ j)"
    by (simp add: divide_inverse)
  have "fl (of_int z) = of_int (roundHalfEven (real_of_int z / inverse (2 ^ j))) * inverse (2 ^ j)"
    using False by (simp add: fl_def Let_def u flip: x_def)
  also have "\<dots> = of_int z"
    unfolding q roundHalfEven_of_int by simp
  finally show ?thesis .
qed

lemma fl_Ints:
  assumes "x \<in> \<int>" and "\<bar>x\<bar> < 2 ^ 53"
  shows "fl x = x"
proof -
  from assms(1) obtain z where z: "x = of_int z"
    by (auto elim: Ints_cases)
  from assms(2) have "real_of_int \<bar>z\<bar> < of_int (2 ^ 53)"
    unfolding z by simp
  then have "\<bar>z\<bar> < 2 ^ 53"
    by (simp only: of_int_less_iff)
  then show ?thesis
    unfolding z by (rule fl_of_int)
qed

lemma fl_Nats:
  assumes "x \<in> \<nat>" and "x < 2 ^ 53"
  shows "fl x = x"
proof -
  from assms(1) have "x \<in> \<int>" and "0 \<le> x"
    by (auto elim: Nats_cases)
  with assms(2) show ?thesis
    by (intro fl_Ints) simp_all
qed

lemma sum_list_amount_Nats:
  "\<forall>r \<in> set rs. amount r \<in> \<nat> \<Longrightarrow> sum_list (map amount rs) \<in> \<nat>"
  by (induction rs) (simp_all add: Nats_add)

lemma sum_list_amount_nonneg:
  "\<forall>r \<in> set rs. amount r \<in> \<nat> \<Longrightarrow> 0 \<le> sum_list (map amount rs)"
  using sum_list_amount_Nats [of rs] by (auto elim: Nats_cases)

lemma foldl_fl_sum:
  assumes "\<forall>r \<in> set rs. amount r \<in> \<nat>" and "a \<in> \<nat>"
      and "a + sum_list (map amount rs) < 2 ^ 53"
  shows "foldl (\<lambda>sum r. fl (sum + amount r)) a rs = a + sum_list (map amount rs)"
  using assms
proof (induction rs arbitrary: a)
  case Nil
  then show ?case by simp
next
  case (Cons r rs)
  from Cons.prems(1) have nn: "0 \<le> sum_list (map amount rs)"
    by (intro sum_list_amount_nonneg) simp
  from Cons.prems have n: "a + amount r \<in> \<nat>"
    by (simp add: Nats_add)
  from Cons.prems(3) nn have "a + amount r < 2 ^ 53"
    by simp
  with n have e: "fl (a + amount r) = a + amount r"
    by (rule fl_Nats)
  from Cons.prems n have "foldl (\<lambda>sum r. fl (sum + amount r)) (a + amount r) rs
      = a + amount r + sum_list (map amount rs)"
    by (intro Cons.IH) (simp_all add: add.assoc)
  then show ?case
    by (simp add: e)
qed

lemma foldl_fl_paid:
  assumes "\<forall>r \<in> set rs. amount r \<in> \<nat>" and "a \<in> \<nat>"
      and "a + sum_list (map amount rs) < 2 ^ 53"
  shows "foldl (\<lambda>sum r. if status r = PAID then fl (sum + amount r) else sum) a rs
     = a + sum_list (map amount (filter (\<lambda>r. status r = PAID) rs))"
  using assms
proof (induction rs arbitrary: a)
  case Nil
  then show ?case by simp
next
  case (Cons r rs)
  from Cons.prems(1) have nn: "0 \<le> sum_list (map amount rs)"
    by (intro sum_list_amount_nonneg) simp
  from Cons.prems(1) have r0: "0 \<le> amount r"
    by (auto elim: Nats_cases)
  show ?case
  proof (cases "status r = PAID")
    case True
    from Cons.prems have n: "a + amount r \<in> \<nat>"
      by (simp add: Nats_add)
    from Cons.prems(3) nn have "a + amount r < 2 ^ 53"
      by simp
    with n have e: "fl (a + amount r) = a + amount r"
      by (rule fl_Nats)
    from Cons.prems n
    have "foldl (\<lambda>sum r. if status r = PAID then fl (sum + amount r) else sum) (a + amount r) rs
        = a + amount r + sum_list (map amount (filter (\<lambda>r. status r = PAID) rs))"
      by (intro Cons.IH) (simp_all add: add.assoc)
    with True show ?thesis
      by (simp add: e)
  next
    case False
    from Cons.prems r0
    have "foldl (\<lambda>sum r. if status r = PAID then fl (sum + amount r) else sum) a rs
        = a + sum_list (map amount (filter (\<lambda>r. status r = PAID) rs))"
      by (intro Cons.IH) simp_all
    with False show ?thesis
      by simp
  qed
qed

lemma sum_list_paid_le:
  "\<forall>r \<in> set rs. amount r \<in> \<nat> \<Longrightarrow>
     sum_list (map amount (filter (\<lambda>r. status r = PAID) rs)) \<le> sum_list (map amount rs)"
proof (induction rs)
  case Nil
  then show ?case by simp
next
  case (Cons r rs)
  then have "0 \<le> amount r"
    by (auto elim: Nats_cases)
  with Cons show ?case by simp
qed

lemma whole_amounts_exact:
  assumes b: "buyInAmount (config g) \<in> \<nat>"
      and r: "\<forall>r \<in> set (rebuys p). amount r \<in> \<nat>"
      and t: "totalCostCash g p < 2 ^ 53"
  shows "paidCash64 g p = paidCash g p" and "totalCostCash64 g p = totalCostCash g p"
    and "pendingCash64 g p = pendingCash g p"
    and "fl (paidCash64 g p + pendingCash64 g p) = totalCostCash64 g p"
proof -
  let ?S = "sum_list (map amount (rebuys p))"
  let ?P = "sum_list (map amount (filter (\<lambda>r. status r = PAID) (rebuys p)))"
  let ?b = "buyInAmount (config g)"
  let ?b' = "if buyInStatus p = PAID then ?b else 0"
  from t have tb: "?b + ?S < 2 ^ 53"
    by (simp add: totalCostCash_sum)
  from b have b0: "0 \<le> ?b"
    by (auto elim: Nats_cases)
  from r have S0: "0 \<le> ?S" and SN: "?S \<in> \<nat>"
    by (simp_all add: sum_list_amount_nonneg sum_list_amount_Nats)
  from r have PS: "?P \<le> ?S"
    by (rule sum_list_paid_le)
  have PN: "?P \<in> \<nat>"
    using r by (intro sum_list_amount_Nats) simp
  from tb b0 have "0 + ?S < 2 ^ 53"
    by simp
  with r have fS: "foldl (\<lambda>sum r. fl (sum + amount r)) 0 (rebuys p) = ?S"
    using foldl_fl_sum [of "rebuys p" 0] by simp
  from \<open>0 + ?S < 2 ^ 53\<close> r
  have fP: "foldl (\<lambda>sum r. if status r = PAID then fl (sum + amount r) else sum) 0 (rebuys p) = ?P"
    using foldl_fl_paid [of "rebuys p" 0] by simp
  from b SN have "?b + ?S \<in> \<nat>"
    by (simp add: Nats_add)
  then have "fl (?b + ?S) = ?b + ?S"
    using tb by (rule fl_Nats)
  then show T: "totalCostCash64 g p = totalCostCash g p"
    by (simp add: totalCostCash64_def fS totalCostCash_sum)
  have b'N: "?b' \<in> \<nat>" and b'le: "?b' \<le> ?b"
    using b b0 by simp_all
  from b'N PN have "?b' + ?P \<in> \<nat>"
    by (simp only: Nats_add)
  moreover from b'le PS tb have "?b' + ?P < 2 ^ 53"
    by linarith
  ultimately have "fl (?b' + ?P) = ?b' + ?P"
    by (rule fl_Nats)
  then show P: "paidCash64 g p = paidCash g p"
    by (simp add: paidCash64_def fP paidCash_sum)
  have d: "pendingCash g p = (?b - ?b') + (?S - ?P)"
    by (simp add: pendingCash_def totalCostCash_sum paidCash_sum)
  from b b'N SN PN have "pendingCash g p \<in> \<int>"
    unfolding d by (intro Ints_add Ints_diff) (auto elim: Nats_cases)
  moreover from b'le PS have "0 \<le> pendingCash g p"
    unfolding d by linarith
  moreover from b'N PN have "pendingCash g p \<le> ?b + ?S"
    unfolding d using b0 S0 by (auto elim!: Nats_cases simp: )
  ultimately have "fl (pendingCash g p) = pendingCash g p"
    using tb by (intro fl_Ints) simp_all
  then show D: "pendingCash64 g p = pendingCash g p"
    by (simp add: pendingCash64_def T P pendingCash_def)
  have "paidCash g p + pendingCash g p = totalCostCash g p"
    by (simp add: pendingCash_def)
  moreover have "fl (totalCostCash g p) = totalCostCash g p"
    using \<open>fl (?b + ?S) = ?b + ?S\<close> by (simp add: totalCostCash_sum)
  ultimately show "fl (paidCash64 g p + pendingCash64 g p) = totalCostCash64 g p"
    by (simp add: T P D)
qed

subsection \<open>The example with cents\<close>

lemma paidCash64_cents: "paidCash64 centsGame centsPlayer = 5685794529555251 / 281474976710656"
  by (simp add: paidCash64_def centsGame_def centsPlayer_def fl_def roundHalfEven_def Let_def eval_nat_numeral)

lemma totalCostCash64_cents: "totalCostCash64 centsGame centsPlayer = 8500544296661811 / 140737488355328"
  by (simp add: totalCostCash64_def centsGame_def centsPlayer_def fl_def roundHalfEven_def Let_def eval_nat_numeral)

lemma pendingCash64_cents: "pendingCash64 centsGame centsPlayer = 2828823515942093 / 70368744177664"
  unfolding pendingCash64_def paidCash64_cents totalCostCash64_cents
  by (simp add: fl_def roundHalfEven_def Let_def eval_nat_numeral)

lemma sum64_cents: "fl (paidCash64 centsGame centsPlayer + pendingCash64 centsGame centsPlayer) = 2125136074165453 / 35184372088832"
  unfolding pendingCash64_cents paidCash64_cents
  by (simp add: fl_def roundHalfEven_def Let_def eval_nat_numeral)

subsection \<open>The identity\<close>

text \<open>
  C6 as stated fails on the numbers the source computes with. For the player of the
  example the source's figures are \<open>paidCash = 20.2\<close>, \<open>totalCostCash = 60.4\<close> and
  \<open>pendingCash = 40.2\<close> (each the binary64 value nearest to the decimal), and
  \<open>20.2 + 40.2\<close> is \<open>60.400000000000006\<close> in binary64, one unit in the last place
  above \<open>totalCostCash\<close>; the exact sum of the two values differs from it as well.
\<close>

theorem paid_plus_pending_binary64_counterexample:
  "centsPlayer \<in> set (validPlayers centsGame)
   \<and> paidCash64 centsGame centsPlayer = 5685794529555251 / 281474976710656
   \<and> totalCostCash64 centsGame centsPlayer = 8500544296661811 / 140737488355328
   \<and> pendingCash64 centsGame centsPlayer = 2828823515942093 / 70368744177664
   \<and> fl (paidCash64 centsGame centsPlayer + pendingCash64 centsGame centsPlayer)
       = 8500544296661812 / 140737488355328
   \<and> fl (paidCash64 centsGame centsPlayer + pendingCash64 centsGame centsPlayer)
       \<noteq> totalCostCash64 centsGame centsPlayer
   \<and> paidCash64 centsGame centsPlayer + pendingCash64 centsGame centsPlayer
       \<noteq> totalCostCash64 centsGame centsPlayer"
proof -
  have "fl (paidCash64 centsGame centsPlayer + pendingCash64 centsGame centsPlayer)
       = 8500544296661812 / 140737488355328"
    unfolding sum64_cents by simp
  moreover have "fl (paidCash64 centsGame centsPlayer + pendingCash64 centsGame centsPlayer)
       \<noteq> totalCostCash64 centsGame centsPlayer"
    unfolding sum64_cents totalCostCash64_cents by simp
  moreover have "paidCash64 centsGame centsPlayer + pendingCash64 centsGame centsPlayer
       \<noteq> totalCostCash64 centsGame centsPlayer"
    unfolding paidCash64_cents pendingCash64_cents totalCostCash64_cents by simp
  ultimately show ?thesis
    using centsPlayer_valid paidCash64_cents totalCostCash64_cents pendingCash64_cents
    by (intro conjI)
qed

text \<open>
  C6, amended. \<open>paidCash\<close> is the buy-in if it is paid, else 0, plus the amounts of the
  paid rebuys; \<open>totalCostCash\<close> is the buy-in plus the amounts of all rebuys; and
  \<open>paidCash + pendingCash = totalCostCash\<close> holds where the arithmetic is exact:
  over exact numbers always, and in binary64 whenever the buy-in and all rebuy amounts
  are whole numbers, not negative, with \<open>totalCostCash\<close> below \<open>2^53\<close>; the binary64
  figures are then the exact ones.
\<close>

theorem paid_plus_pending_is_total:
  "paidCash g p = (if buyInStatus p = PAID then buyInAmount (config g) else 0)
                  + (\<Sum>r\<leftarrow>filter (\<lambda>r. status r = PAID) (rebuys p). amount r)
   \<and> totalCostCash g p = buyInAmount (config g) + (\<Sum>r\<leftarrow>rebuys p. amount r)
   \<and> paidCash g p + pendingCash g p = totalCostCash g p
   \<and> (buyInAmount (config g) \<in> \<nat> \<and> (\<forall>r \<in> set (rebuys p). amount r \<in> \<nat>)
        \<and> totalCostCash g p < 2 ^ 53 \<longrightarrow>
          paidCash64 g p = paidCash g p
        \<and> totalCostCash64 g p = totalCostCash g p
        \<and> pendingCash64 g p = pendingCash g p
        \<and> fl (paidCash64 g p + pendingCash64 g p) = totalCostCash64 g p)"
proof (intro conjI impI)
  show "paidCash g p = (if buyInStatus p = PAID then buyInAmount (config g) else 0)
                  + (\<Sum>r\<leftarrow>filter (\<lambda>r. status r = PAID) (rebuys p). amount r)"
    by (rule paidCash_sum)
  show "totalCostCash g p = buyInAmount (config g) + (\<Sum>r\<leftarrow>rebuys p. amount r)"
    by (rule totalCostCash_sum)
  show "paidCash g p + pendingCash g p = totalCostCash g p"
    by (simp add: pendingCash_def)
next
  assume "buyInAmount (config g) \<in> \<nat> \<and> (\<forall>r \<in> set (rebuys p). amount r \<in> \<nat>)
        \<and> totalCostCash g p < 2 ^ 53"
  then have b: "buyInAmount (config g) \<in> \<nat>" and r: "\<forall>r \<in> set (rebuys p). amount r \<in> \<nat>"
    and t: "totalCostCash g p < 2 ^ 53"
    by simp_all
  show "paidCash64 g p = paidCash g p"
    by (rule whole_amounts_exact(1) [OF b r t])
  show "totalCostCash64 g p = totalCostCash g p"
    by (rule whole_amounts_exact(2) [OF b r t])
  show "pendingCash64 g p = pendingCash g p"
    by (rule whole_amounts_exact(3) [OF b r t])
  show "fl (paidCash64 g p + pendingCash64 g p) = totalCostCash64 g p"
    by (rule whole_amounts_exact(4) [OF b r t])
qed

text \<open>At the example state: Ana has paid her buy-in of 50 and owes her rebuy of 30.\<close>

theorem paid_plus_pending_is_total_witness:
  "buyInAmount (config demoGame) = 50
   \<and> map amount (rebuys (hd (players demoGame))) = [30]
   \<and> paidCash demoGame (hd (players demoGame)) = 50
   \<and> pendingCash demoGame (hd (players demoGame)) = 30
   \<and> totalCostCash demoGame (hd (players demoGame)) = 80
   \<and> paidCash64 demoGame (hd (players demoGame)) = 50
   \<and> pendingCash64 demoGame (hd (players demoGame)) = 30
   \<and> totalCostCash64 demoGame (hd (players demoGame)) = 80
   \<and> fl (paidCash64 demoGame (hd (players demoGame)) + pendingCash64 demoGame (hd (players demoGame)))
       = totalCostCash64 demoGame (hd (players demoGame))"
proof -
  let ?p = "hd (players demoGame)"
  have b: "buyInAmount (config demoGame) = 50" and a: "map amount (rebuys ?p) = [30]"
    by (simp_all add: demoGame_def)
  have t: "totalCostCash demoGame ?p = 80"
    by (simp add: totalCostCash_def demoGame_def)
  have pd: "paidCash demoGame ?p = 50"
    by (simp add: paidCash_def demoGame_def)
  have pn: "pendingCash demoGame ?p = 30"
    by (simp add: pendingCash_def t pd)
  have h: "buyInAmount (config demoGame) \<in> \<nat>
    \<and> (\<forall>r \<in> set (rebuys ?p). amount r \<in> \<nat>)
    \<and> totalCostCash demoGame ?p < 2 ^ 53"
    unfolding t by (simp add: demoGame_def)
  from paid_plus_pending_is_total [of demoGame ?p] h
  have e: "paidCash64 demoGame ?p = paidCash demoGame ?p"
      "totalCostCash64 demoGame ?p = totalCostCash demoGame ?p"
      "pendingCash64 demoGame ?p = pendingCash demoGame ?p"
      "fl (paidCash64 demoGame ?p + pendingCash64 demoGame ?p) = totalCostCash64 demoGame ?p"
    by blast+
  show ?thesis
    using e by (simp add: t pd pn b a)
qed

section \<open>Commands naming an unknown player or rebuy\<close>

text \<open>
  C8. A command that names a player id no player of the state has
  (\<open>SetBuyInStatus\<close>, \<open>RemovePlayer\<close>, \<open>SubmitCashout\<close>, \<open>RemoveRebuy\<close>,
  \<open>ToggleRebuyStatus\<close>), or a rebuy id that no rebuy of the named player has
  (\<open>RemoveRebuy\<close>, \<open>ToggleRebuyStatus\<close>), succeeds and returns the state it was given.
\<close>

theorem unknown_id_is_noop:
  "(playerId \<notin> player_id ` set (players g) \<longrightarrow>
      step g (SetBuyInStatus playerId st) = Inr g
    \<and> step g (RemovePlayer playerId) = Inr g
    \<and> step g (SubmitCashout playerId amt) = Inr g)
   \<and> ((\<forall>p \<in> set (players g). player_id p = playerId \<longrightarrow> rebuyId \<notin> rebuy_id ` set (rebuys p)) \<longrightarrow>
      step g (RemoveRebuy playerId rebuyId) = Inr g
    \<and> step g (ToggleRebuyStatus playerId rebuyId) = Inr g)"
proof (intro conjI impI)
  assume "playerId \<notin> player_id ` set (players g)"
  then have ne: "\<And>p. p \<in> set (players g) \<Longrightarrow> player_id p \<noteq> playerId"
    by auto
  show "step g (SetBuyInStatus playerId st) = Inr g"
    by (simp add: updatePlayerStatus_def ne map_cond_id)
  show "step g (RemovePlayer playerId) = Inr g"
    by (simp add: removePlayer_def ne filter_cond_id)
  show "step g (SubmitCashout playerId amt) = Inr g"
    by (simp add: submitCashout_def ne map_cond_id)
next
  assume "\<forall>p \<in> set (players g). player_id p = playerId \<longrightarrow> rebuyId \<notin> rebuy_id ` set (rebuys p)"
  then have ne: "\<And>p r. p \<in> set (players g) \<Longrightarrow> player_id p = playerId \<Longrightarrow> r \<in> set (rebuys p)
                   \<Longrightarrow> rebuy_id r \<noteq> rebuyId"
    by auto
  have "map (\<lambda>p. if player_id p = playerId
                 then p\<lparr>rebuys := filter (\<lambda>r. rebuy_id r \<noteq> rebuyId) (rebuys p)\<rparr> else p)
           (players g) = players g"
    by (rule map_cond_id) (simp add: ne filter_cond_id)
  then show "step g (RemoveRebuy playerId rebuyId) = Inr g"
    by (simp add: removeRebuy_def)
  have "map (\<lambda>p. if player_id p = playerId
                 then p\<lparr>rebuys :=
                        map (\<lambda>r. if rebuy_id r = rebuyId
                                  then r\<lparr>status := (if status r = PAID then PENDING else PAID)\<rparr>
                                  else r)
                            (rebuys p)\<rparr>
                 else p)
           (players g) = players g"
    by (rule map_cond_id) (simp add: ne map_cond_id)
  then show "step g (ToggleRebuyStatus playerId rebuyId) = Inr g"
    by (simp add: toggleRebuyStatus_def)
qed

text \<open>
  At the example state: no player has the id \<open>p9\<close>, and Ana (\<open>p1\<close>), whose one
  rebuy is \<open>r1\<close>, has no rebuy \<open>r9\<close>.
\<close>

theorem unknown_id_is_noop_witness:
  "map player_id (players demoGame) = [''p1'', ''p2'']
   \<and> map rebuy_id (rebuys (hd (players demoGame))) = [''r1'']
   \<and> step demoGame (SetBuyInStatus ''p9'' PAID) = Inr demoGame
   \<and> step demoGame (RemovePlayer ''p9'') = Inr demoGame
   \<and> step demoGame (SubmitCashout ''p9'' 5) = Inr demoGame
   \<and> step demoGame (RemoveRebuy ''p9'' ''r1'') = Inr demoGame
   \<and> step demoGame (ToggleRebuyStatus ''p9'' ''r1'') = Inr demoGame
   \<and> step demoGame (RemoveRebuy ''p1'' ''r9'') = Inr demoGame
   \<and> step demoGame (ToggleRebuyStatus ''p1'' ''r9'') = Inr demoGame"
proof -
  have ids: "map player_id (players demoGame) = [''p1'', ''p2'']"
    and rids: "map rebuy_id (rebuys (hd (players demoGame))) = [''r1'']"
    by (simp_all add: demoGame_def)
  have h1: "''p9'' \<notin> player_id ` set (players demoGame)"
    by (simp add: demoGame_def)
  have h2: "\<forall>p \<in> set (players demoGame). player_id p = ''p9'' \<longrightarrow> ''r1'' \<notin> rebuy_id ` set (rebuys p)"
    by (simp add: demoGame_def)
  have h3: "\<forall>p \<in> set (players demoGame). player_id p = ''p1'' \<longrightarrow> ''r9'' \<notin> rebuy_id ` set (rebuys p)"
    by (simp add: demoGame_def)
  from unknown_id_is_noop [of "''p9''" demoGame PAID 5 "''r1''"] h1 h2
  have a: "step demoGame (SetBuyInStatus ''p9'' PAID) = Inr demoGame"
      "step demoGame (RemovePlayer ''p9'') = Inr demoGame"
      "step demoGame (SubmitCashout ''p9'' 5) = Inr demoGame"
      "step demoGame (RemoveRebuy ''p9'' ''r1'') = Inr demoGame"
      "step demoGame (ToggleRebuyStatus ''p9'' ''r1'') = Inr demoGame"
    by blast+
  from unknown_id_is_noop [of "''p1''" demoGame PAID 5 "''r9''"] h3
  have b: "step demoGame (RemoveRebuy ''p1'' ''r9'') = Inr demoGame"
      "step demoGame (ToggleRebuyStatus ''p1'' ''r9'') = Inr demoGame"
    by blast+
  from ids rids a b show ?thesis
    by (intro conjI)
qed

section \<open>Toggling a rebuy twice\<close>

text \<open>
  C9. \<open>ToggleRebuyStatus\<close> applied twice with the same player and rebuy id gives back
  the state it started from; in particular the rebuy \<open>r\<close> of player \<open>p\<close> has its
  original status again.
\<close>

theorem toggleRebuyStatus_twice:
  "toggleRebuyStatus playerId rebuyId (toggleRebuyStatus playerId rebuyId g) = g"
proof -
  let ?tr = "\<lambda>r. if rebuy_id r = rebuyId
                  then r\<lparr>status := (if status r = PAID then PENDING else PAID)\<rparr> else r"
  let ?tp = "\<lambda>p. if player_id p = playerId then p\<lparr>rebuys := map ?tr (rebuys p)\<rparr> else p"
  have r: "?tr (?tr r) = r" for r :: Rebuy
    by (cases "status r") auto
  have rs: "map ?tr (map ?tr rs) = rs" for rs :: "Rebuy list"
    by (induction rs) (simp_all only: list.map r)
  have p: "?tp (?tp p) = p" for p :: Player
    by (simp add: rs del: map_map)
  have ps: "map ?tp (map ?tp ps) = ps" for ps :: "Player list"
    by (induction ps) (simp_all only: list.map p)
  have "players (toggleRebuyStatus playerId rebuyId (toggleRebuyStatus playerId rebuyId g))
          = map ?tp (map ?tp (players g))"
    by (simp add: toggleRebuyStatus_def del: map_map)
  then have "players (toggleRebuyStatus playerId rebuyId (toggleRebuyStatus playerId rebuyId g))
          = players g"
    by (simp only: ps)
  then show ?thesis
    by (simp add: toggleRebuyStatus_def)
qed

text \<open>One toggle does change the status: Ana's pending rebuy becomes paid.\<close>

lemma toggleRebuyStatus_once:
  "map (\<lambda>p. map status (rebuys p)) (players demoGame) = [[PENDING], []]"
  "map (\<lambda>p. map status (rebuys p)) (players (toggleRebuyStatus ''p1'' ''r1'' demoGame))
     = [[PAID], []]"
  by (simp_all add: toggleRebuyStatus_def demoGame_def)

section \<open>New players and new rebuys\<close>

text \<open>
  C10. \<open>AddPlayer\<close> with a name that is not blank appends one player, with the
  trimmed name, buy-in status \<open>PENDING\<close>, no rebuys and no cashout, and changes
  nothing else. \<open>AddRebuy\<close> with an amount of at least 1 succeeds, keeps the flags,
  the configuration and the number of players, appends exactly one rebuy with the
  given amount and status \<open>PENDING\<close> at the end of the rebuys of the player with
  the given id, and leaves every other player as it was.
\<close>

theorem new_entities_start_pending:
  "(trim newPlayerName \<noteq> [] \<longrightarrow>
      addPlayer newPlayerName uuid g =
        g\<lparr>players := players g @
            [\<lparr>player_id = uuid, name = trim newPlayerName, buyInStatus = PENDING,
              rebuys = [], cashoutAmount = None\<rparr>]\<rparr>)
   \<and> (1 \<le> amt \<longrightarrow>
      (\<exists>g'. addRebuy playerId amt rebuyUuid now g = Inr g'
         \<and> isStarted g' = isStarted g \<and> finished g' = finished g \<and> config g' = config g
         \<and> length (players g') = length (players g)
         \<and> (\<forall>i < length (players g).
               players g' ! i =
                 (if player_id (players g ! i) = playerId
                  then (players g ! i)\<lparr>rebuys := rebuys (players g ! i) @
                         [\<lparr>rebuy_id = rebuyUuid, amount = amt, status = PENDING, timestamp = now\<rparr>]\<rparr>
                  else players g ! i))))"
  by (simp add: addPlayer_def addRebuy_def)

theorem new_entities_start_pending_witness:
  "(trim ''  Caio '' \<noteq> []
    \<and> players (addPlayer ''  Caio '' ''p3'' demoGame) = players demoGame @
        [\<lparr>player_id = ''p3'', name = ''Caio'', buyInStatus = PENDING,
          rebuys = [], cashoutAmount = None\<rparr>])
   \<and> ((1::real) \<le> 25
    \<and> (\<exists>g'. addRebuy ''p1'' 25 ''r2'' 9 demoGame = Inr g'
         \<and> (0 < length (players demoGame) \<and> rebuys (players g' ! 0) =
               [\<lparr>rebuy_id = ''r1'', amount = 30, status = PENDING, timestamp = 1\<rparr>,
                \<lparr>rebuy_id = ''r2'', amount = 25, status = PENDING, timestamp = 9\<rparr>])
         \<and> (1 < length (players demoGame) \<and> players g' ! 1 = players demoGame ! 1)))"
proof -
  have t: "trim ''  Caio '' = ''Caio''"
    by (simp add: trim_def isWhiteSpace_def)
  have h1: "trim ''  Caio '' \<noteq> []"
    by (simp add: t)
  have h2: "(1::real) \<le> 25"
    by simp
  from new_entities_start_pending [where newPlayerName = "''  Caio ''" and uuid = "''p3''"
         and g = demoGame and amt = 25 and playerId = "''p1''" and rebuyUuid = "''r2''" and now = 9] h1 h2
  obtain g' where g': "addRebuy ''p1'' 25 ''r2'' 9 demoGame = Inr g'"
     and nth: "\<forall>i < length (players demoGame).
               players g' ! i =
                 (if player_id (players demoGame ! i) = ''p1''
                  then (players demoGame ! i)\<lparr>rebuys := rebuys (players demoGame ! i) @
                         [\<lparr>rebuy_id = ''r2'', amount = 25, status = PENDING, timestamp = 9\<rparr>]\<rparr>
                  else players demoGame ! i)"
     and ap: "addPlayer ''  Caio '' ''p3'' demoGame =
        demoGame\<lparr>players := players demoGame @
            [\<lparr>player_id = ''p3'', name = trim ''  Caio '', buyInStatus = PENDING,
              rebuys = [], cashoutAmount = None\<rparr>]\<rparr>"
    by blast
  have l: "length (players demoGame) = 2"
    by (simp add: demoGame_def)
  from nth l have n0: "players g' ! 0 = (if player_id (players demoGame ! 0) = ''p1''
                  then (players demoGame ! 0)\<lparr>rebuys := rebuys (players demoGame ! 0) @
                         [\<lparr>rebuy_id = ''r2'', amount = 25, status = PENDING, timestamp = 9\<rparr>]\<rparr>
                  else players demoGame ! 0)"
    by simp
  from nth l have n1: "players g' ! 1 = (if player_id (players demoGame ! 1) = ''p1''
                  then (players demoGame ! 1)\<lparr>rebuys := rebuys (players demoGame ! 1) @
                         [\<lparr>rebuy_id = ''r2'', amount = 25, status = PENDING, timestamp = 9\<rparr>]\<rparr>
                  else players demoGame ! 1)"
    by simp
  have r0: "rebuys (players g' ! 0) =
               [\<lparr>rebuy_id = ''r1'', amount = 30, status = PENDING, timestamp = 1\<rparr>,
                \<lparr>rebuy_id = ''r2'', amount = 25, status = PENDING, timestamp = 9\<rparr>]"
    unfolding n0 by (simp add: demoGame_def)
  have r1: "players g' ! 1 = players demoGame ! 1"
    unfolding n1 by (simp add: demoGame_def)
  have a: "players (addPlayer ''  Caio '' ''p3'' demoGame) = players demoGame @
        [\<lparr>player_id = ''p3'', name = ''Caio'', buyInStatus = PENDING,
          rebuys = [], cashoutAmount = None\<rparr>]"
    unfolding ap by (simp add: t)
  show ?thesis
    using h1 h2 g' r0 r1 a l by simp
qed

section \<open>Binary64 rounding\<close>

text \<open>
  What the ledger, the audit and the ranking need of the rounding: it is odd and keeps
  the sign, its values lie on a grid, so that the rounded difference of two of them has
  the sign of the exact difference, no binary64 value lies between one tenth and the
  literal \<^verbatim>\<open>0.1\<close>, and sums of whole numbers below \<open>2^53\<close> are exact.
\<close>

subsection \<open>The exponent search\<close>


lemma binade_le: "binade n x \<le> int n"
proof (induction n arbitrary: x)
  case 0
  show ?case by simp
next
  case (Suc n)
  from Suc [of "x / 2"] Suc [of "x * 2"] show ?case by simp
qed

lemma binade_lower: "0 < x \<Longrightarrow> 2 powi (binade n x) \<le> max x (2 powi (- int n))"
proof (induction n arbitrary: x)
  case 0
  then show ?case by simp
next
  case (Suc n)
  show ?case
  proof (cases "2 \<le> x")
    case True
    from Suc.prems have "2 powi (binade n (x / 2)) \<le> max (x / 2) (2 powi (- int n))"
      by (intro Suc.IH) simp
    moreover have "(2::real) powi (- int n) \<le> 1"
      by (simp add: power_int_minus inverse_le_1_iff)
    ultimately have "2 powi (binade n (x / 2)) \<le> x / 2"
      using True by simp
    then have "2 powi (binade n (x / 2) + 1) \<le> x"
      by (simp add: power_int_add)
    with True show ?thesis by simp
  next
    case False
    show ?thesis
    proof (cases "x < 1")
      case True
      from Suc.prems have "2 powi (binade n (x * 2)) \<le> max (x * 2) (2 powi (- int n))"
        by (intro Suc.IH) simp
      then have "2 powi (binade n (x * 2)) / 2 \<le> max x (2 powi (- int n) / 2)"
        by (auto simp: max_def split: if_splits)
      moreover have "(2::real) powi (binade n (x * 2) - 1) = 2 powi (binade n (x * 2)) / 2"
        by (simp add: power_int_diff)
      moreover have "(2::real) powi (- int (Suc n)) = 2 powi (- int n) / 2"
        using power_int_add [of "2::real" "- 1 - int n" 1] by simp
      ultimately show ?thesis
        using True False by simp
    next
      case x1: False
      with False show ?thesis by simp
    qed
  qed
qed

lemma binade_upper_powi: "0 < x \<Longrightarrow> x < 2 powi (int n) \<Longrightarrow> x < 2 powi (binade n x + 1)"
proof (induction n arbitrary: x)
  case 0
  then show ?case by simp
next
  case (Suc n)
  show ?case
  proof (cases "2 \<le> x")
    case True
    from Suc.prems have "x / 2 < 2 powi (int n)"
      by (simp add: power_int_add)
    with Suc.prems have "x / 2 < 2 powi (binade n (x / 2) + 1)"
      by (intro Suc.IH) simp_all
    then have "x < 2 powi (binade n (x / 2) + 1 + 1)"
      by (simp add: power_int_add)
    with True show ?thesis by simp
  next
    case False
    show ?thesis
    proof (cases "x < 1")
      case True
      show ?thesis
      proof (cases n)
        case 0
        with True False show ?thesis by simp
      next
        case (Suc m)
        have "(2::real) \<le> 2 powi (int n)"
          unfolding Suc by (simp add: power_int_add)
        with True have "x * 2 < 2 powi (int n)"
          by simp
        with Suc.prems have "x * 2 < 2 powi (binade n (x * 2) + 1)"
          by (intro Suc.IH) simp_all
        then have "x < 2 powi (binade n (x * 2))"
          by (simp add: power_int_add)
        with True False show ?thesis by simp
      qed
    next
      case x1: False
      with False Suc.prems show ?thesis by simp
    qed
  qed
qed

subsection \<open>Sign and zero\<close>

lemma roundHalfEven_ge: "of_int k \<le> q \<Longrightarrow> k \<le> roundHalfEven q"
proof -
  assume "of_int k \<le> q"
  then have "k \<le> \<lfloor>q\<rfloor>" by (simp add: le_floor_iff)
  then show ?thesis by (simp add: roundHalfEven_def Let_def)
qed

lemma roundHalfEven_le: "q \<le> of_int k \<Longrightarrow> roundHalfEven q \<le> k"
proof -
  assume q: "q \<le> of_int k"
  then have f: "\<lfloor>q\<rfloor> \<le> k" by (simp add: floor_le_iff)
  show ?thesis
  proof (cases "q = of_int \<lfloor>q\<rfloor>")
    case True
    then have "q - of_int \<lfloor>q\<rfloor> < 1 / 2" by simp
    with f show ?thesis by (simp add: roundHalfEven_def Let_def)
  next
    case False
    have "\<lfloor>q\<rfloor> \<noteq> k"
    proof
      assume "\<lfloor>q\<rfloor> = k"
      with q have "q \<le> of_int \<lfloor>q\<rfloor>" by simp
      moreover have "of_int \<lfloor>q\<rfloor> \<le> q" by (rule of_int_floor_le)
      ultimately have "q = of_int \<lfloor>q\<rfloor>" by (rule antisym)
      with False show False by simp
    qed
    with f have "\<lfloor>q\<rfloor> + 1 \<le> k" by simp
    then show ?thesis by (simp add: roundHalfEven_def Let_def)
  qed
qed

lemma roundHalfEven_minus: "roundHalfEven (- q) = - roundHalfEven q"
proof (cases "q = of_int \<lfloor>q\<rfloor>")
  case True
  then obtain z where "q = of_int z" by blast
  then show ?thesis
    using roundHalfEven_of_int [of z] roundHalfEven_of_int [of "- z"] by simp
next
  case False
  then have c: "\<lceil>q\<rceil> = \<lfloor>q\<rfloor> + 1"
    by (metis ceiling_altdef)
  have f: "\<lfloor>- q\<rfloor> = - \<lfloor>q\<rfloor> - 1"
    using c by (simp add: floor_minus)
  define d where "d = q - of_int \<lfloor>q\<rfloor>"
  have d': "- q - of_int (- \<lfloor>q\<rfloor> - 1) = 1 - d"
    by (simp add: d_def)
  show ?thesis
    unfolding roundHalfEven_def Let_def f d' d_def [symmetric]
    by (auto simp: )
qed

lemma fl_0: "fl 0 = 0"
  by (simp add: fl_def)

lemma fl_minus: "fl (- x) = - fl x"
  by (simp add: fl_def Let_def roundHalfEven_minus)

lemma fl_nonneg: "0 \<le> x \<Longrightarrow> 0 \<le> fl x"
proof -
  assume x: "0 \<le> x"
  have u: "0 < (2::real) powi (binade 2200 \<bar>x\<bar> - 52)"
    by simp
  with x have "real_of_int 0 \<le> x / 2 powi (binade 2200 \<bar>x\<bar> - 52)"
    by simp
  then have "0 \<le> roundHalfEven (x / 2 powi (binade 2200 \<bar>x\<bar> - 52))"
    by (rule roundHalfEven_ge)
  then show ?thesis
    by (simp add: fl_def Let_def)
qed

lemma fl_abs: "\<bar>fl x\<bar> = fl \<bar>x\<bar>"
proof (cases "0 \<le> x")
  case True
  with fl_nonneg [of x] show ?thesis by simp
next
  case False
  then have "0 \<le> fl (- x)" by (intro fl_nonneg) simp
  with False show ?thesis by (simp add: fl_minus)
qed

subsection \<open>The grid\<close>

lemma grid_pos: "0 < grid"
  by (simp add: grid_def del: power_int_minus)

lemma onGrid_iff: "onGrid x = (\<exists>k::int. x = of_int k * grid)"
proof
  assume "onGrid x"
  then have "x = of_int \<lfloor>x / grid\<rfloor> * grid" by (simp add: onGrid_def)
  then show "\<exists>k::int. x = of_int k * grid" ..
next
  assume "\<exists>k::int. x = of_int k * grid"
  then obtain k :: int where k: "x = of_int k * grid" ..
  with grid_pos have "x / grid = of_int k" by simp
  then have "\<lfloor>x / grid\<rfloor> = k" by simp
  with k show "onGrid x" by (simp add: onGrid_def)
qed

lemma fl_unit_le:
  fixes x :: real
  assumes "grid \<le> x"
  shows "2 powi (binade 2200 x - 52) \<le> x"
proof -
  from assms grid_pos have x: "0 < x" by linarith
  define a :: real where "a = 2 powi (binade 2200 x)"
  define s :: real where "s = 2 powi (- 52)"
  define t :: real where "t = 2 powi (- 2200)"
  have a0: "0 < a" and s0: "0 < s" and t0: "0 < t"
    by (simp_all add: a_def s_def t_def del: power_int_minus)
  have s1: "s \<le> 1"
    unfolding s_def by (simp add: power_int_minus inverse_le_1_iff)
  have split: "(2::real) powi (binade 2200 x - 52) = a * s"
    unfolding a_def s_def using power_int_add [of "2::real" "binade 2200 x" "- 52"] by simp
  have ts: "t * s = grid"
    unfolding t_def s_def grid_def using power_int_add [of "2::real" "- 2200" "- 52"] by simp
  from binade_lower [OF x, of 2200]
  have "a \<le> max x t" unfolding a_def t_def by simp
  then consider "a \<le> x" | "a \<le> t"
    by (auto simp: max_def split: if_splits)
  then show ?thesis
  proof cases
    case 1
    then have "a * s \<le> x * 1"
      using s1 s0 x by (intro mult_mono) simp_all
    then show ?thesis unfolding split by simp
  next
    case 2
    then have "a * s \<le> t * s"
      using s0 by (intro mult_right_mono) simp_all
    with ts assms show ?thesis unfolding split by linarith
  qed
qed

lemma fl_pos:
  assumes "grid \<le> x"
  shows "0 < fl x"
proof -
  from assms grid_pos have x: "0 < x" by linarith
  define u :: real where "u = 2 powi (binade 2200 \<bar>x\<bar> - 52)"
  have u: "0 < u" by (simp add: u_def)
  from fl_unit_le [OF assms] x have "u \<le> x" by (simp add: u_def)
  with u have "real_of_int 1 \<le> x / u"
    by (simp add: le_divide_eq)
  then have "1 \<le> roundHalfEven (x / u)"
    by (rule roundHalfEven_ge)
  then have "0 < real_of_int (roundHalfEven (x / u)) * u"
    using u by (intro mult_pos_pos) simp_all
  with x show ?thesis
    by (simp add: fl_def Let_def u_def)
qed

lemma fl_neg:
  assumes "x \<le> - grid"
  shows "fl x < 0"
proof -
  from assms have "grid \<le> - x" by simp
  then have "0 < fl (- x)" by (rule fl_pos)
  then show ?thesis by (simp add: fl_minus)
qed


lemma grid_diff:
  fixes k l :: int and x y :: real
  assumes "x = of_int k * grid" and "y = of_int l * grid" and "x \<noteq> y"
  shows "grid \<le> \<bar>x - y\<bar>"
proof -
  from assms have "k \<noteq> l" by auto
  then have "1 \<le> \<bar>k - l\<bar>" by simp
  then have "(1::real) \<le> of_int \<bar>k - l\<bar>" by (simp only: of_int_1_le_iff)
  then have "1 * grid \<le> real_of_int \<bar>k - l\<bar> * grid"
    using grid_pos by (intro mult_right_mono) simp_all
  moreover have "x - y = real_of_int (k - l) * grid"
    unfolding assms(1,2) by (simp add: left_diff_distrib)
  then have "\<bar>x - y\<bar> = real_of_int \<bar>k - l\<bar> * grid"
    using grid_pos by (simp add: abs_mult)
  ultimately show ?thesis by simp
qed




lemma fl_diff_sign_grid:
  assumes "onGrid x" and "onGrid y"
  shows "(fl (x - y) \<le> 0) = (x \<le> y)"
proof -
  from assms obtain k l :: int where k: "x = of_int k * grid" and l: "y = of_int l * grid"
    unfolding onGrid_iff by blast
  show ?thesis
  proof (cases "x = y")
    case True
    then show ?thesis by (simp add: fl_0)
  next
    case False
    from grid_diff [OF k l False] have d: "grid \<le> \<bar>x - y\<bar>" .
    show ?thesis
    proof (cases "x < y")
      case True
      with d have "x - y \<le> - grid" by simp
      then have "fl (x - y) < 0" by (rule fl_neg)
      with True show ?thesis by simp
    next
      case gt: False
      with False d have "grid \<le> x - y" by simp
      then have "0 < fl (x - y)" by (rule fl_pos)
      with gt False show ?thesis by simp
    qed
  qed
qed




subsection \<open>The tolerance of one tenth\<close>

lemma fl_below_tenth:
  fixes y :: real
  assumes y: "0 < y" and lt: "fl y < 3602879701896397 / 36028797018963968"
  shows "fl y < 1 / 10"
proof (rule ccontr)
  assume "\<not> fl y < 1 / 10"
  then have ge: "1 / 10 \<le> fl y" by simp
  define e where "e = binade 2200 y"
  define u :: real where "u = 2 powi (e - 52)"
  define n where "n = roundHalfEven (y / u)"
  have u0: "0 < u" by (simp add: u_def)
  have v: "fl y = of_int n * u"
    using y by (simp add: fl_def Let_def n_def u_def e_def)
  have ue: "u * 2 ^ 52 = 2 powi e"
    unfolding u_def using power_int_add [of "2::real" "e - 52" 52] by simp
  have ue1: "u * 2 ^ 53 = 2 powi (e + 1)"
    unfolding u_def using power_int_add [of "2::real" "e - 52" 53] by (simp add: add.commute)
  \<comment> \<open>the exponent is at most \<open>-4\<close>\<close>
  have up: "e \<le> - 4"
  proof -
    from binade_lower [OF y, of 2200]
    have "2 powi e \<le> max y (2 powi (- 2200))" by (simp add: e_def)
    then consider "2 powi e \<le> y" | "(2::real) powi e \<le> 2 powi (- 2200)"
      by (auto simp: max_def split: if_splits)
    then show ?thesis
    proof cases
      case 1
      then have "u * 2 ^ 52 \<le> y" by (simp only: ue)
      then have "real_of_int (2 ^ 52) \<le> y / u"
        using u0 by (simp add: le_divide_eq mult.commute)
      then have "2 ^ 52 \<le> n" unfolding n_def by (rule roundHalfEven_ge)
      then have "real_of_int (2 ^ 52) \<le> of_int n" by (simp only: of_int_le_iff)
      then have "real_of_int (2 ^ 52) * u \<le> of_int n * u"
        using u0 by (intro mult_right_mono) simp_all
      then have "2 powi e \<le> fl y"
        unfolding v using ue by (simp add: mult.commute)
      with lt have "(2::real) powi e < 3602879701896397 / 36028797018963968" by linarith
      also have "\<dots> < (2::real) powi (- 3)" by (simp add: power_int_minus)
      finally have l: "(2::real) powi e < 2 powi (- 3)" .
      show ?thesis
      proof (rule ccontr)
        assume "\<not> e \<le> - 4"
        then have "- 3 \<le> e" by simp
        then have "(2::real) powi (- 3) \<le> 2 powi e" by (intro power_int_increasing) simp_all
        with l show False by linarith
      qed
    next
      case 2
      show ?thesis
      proof (rule ccontr)
        assume "\<not> e \<le> - 4"
        then have "- 2200 < e" by simp
        then have "(2::real) powi (- 2200) < 2 powi e" by (intro power_int_strict_increasing) simp_all
        with 2 show False by linarith
      qed
    qed
  qed
  \<comment> \<open>and at least \<open>-4\<close>\<close>
  have lo: "- 4 \<le> e"
  proof (cases "1 \<le> y")
    case True
    then have "0 \<le> e" unfolding e_def by (rule binade_nonneg)
    then show ?thesis by simp
  next
    case False
    have "(1::real) \<le> 2 powi (int 2200)" by (simp add: one_le_power)
    with False have "y < 2 powi (int 2200)" by linarith
    with y have "y < 2 powi (e + 1)"
      unfolding e_def by (rule binade_upper_powi)
    then have "y < u * 2 ^ 53" by (simp only: ue1)
    then have "y / u \<le> real_of_int (2 ^ 53)"
      using u0 by (simp add: divide_le_eq mult.commute)
    then have "n \<le> 2 ^ 53" unfolding n_def by (rule roundHalfEven_le)
    then have "real_of_int n \<le> of_int (2 ^ 53)" by (simp only: of_int_le_iff)
    then have "real_of_int n * u \<le> of_int (2 ^ 53) * u"
      using u0 by (intro mult_right_mono) simp_all
    then have "fl y \<le> 2 powi (e + 1)"
      unfolding v using ue1 by (simp add: mult.commute)
    with ge have g: "1 / 10 \<le> (2::real) powi (e + 1)" by linarith
    show ?thesis
    proof (rule ccontr)
      assume "\<not> - 4 \<le> e"
      then have "e + 1 \<le> - 4" by simp
      then have "(2::real) powi (e + 1) \<le> 2 powi (- 4)" by (intro power_int_increasing) simp_all
      also have "\<dots> < 1 / 10" by (simp add: power_int_minus)
      finally show False using g by linarith
    qed
  qed
  from up lo have e4: "e = - 4" by simp
  have u56: "u = 1 / 72057594037927936"
    unfolding u_def e4 by (simp add: power_int_minus)
  from ge have "72057594037927936 \<le> real_of_int n * 10"
    unfolding v u56 by simp
  then have "real_of_int 72057594037927936 \<le> real_of_int (n * 10)" by simp
  then have "72057594037927936 \<le> n * 10" by (simp only: of_int_le_iff)
  then have n1: "7205759403792794 \<le> n" by simp
  from lt have "real_of_int n * 36028797018963968 < 3602879701896397 * 72057594037927936"
    unfolding v u56 by (simp add: field_simps)
  then have "real_of_int (n * 36028797018963968) < real_of_int (3602879701896397 * 72057594037927936)"
    by simp
  then have "n * 36028797018963968 < 3602879701896397 * 72057594037927936"
    by (simp only: of_int_less_iff)
  then have "n < 7205759403792794" by simp
  with n1 show False by simp
qed

lemma abs_fl_tenth: "(\<bar>fl x\<bar> < fl (1 / 10)) = (\<bar>fl x\<bar> < 1 / 10)"
proof
  assume a: "\<bar>fl x\<bar> < fl (1 / 10)"
  show "\<bar>fl x\<bar> < 1 / 10"
  proof (cases "x = 0")
    case True
    then show ?thesis by (simp add: fl_0)
  next
    case False
    then have "0 < \<bar>x\<bar>" by simp
    moreover from a have "fl \<bar>x\<bar> < 3602879701896397 / 36028797018963968"
      by (simp only: fl_abs fl_one_tenth)
    ultimately have "fl \<bar>x\<bar> < 1 / 10" by (rule fl_below_tenth)
    then show ?thesis by (simp only: fl_abs)
  qed
next
  assume "\<bar>fl x\<bar> < 1 / 10"
  then show "\<bar>fl x\<bar> < fl (1 / 10)"
    unfolding fl_one_tenth by simp
qed

subsection \<open>Whole numbers\<close>

lemma fl_whole: "x \<in> \<int> \<Longrightarrow> \<bar>x\<bar> < 9007199254740992 \<Longrightarrow> fl x = x"
  using fl_Ints [of x] by simp



lemma round64_eq_fl:
  assumes "1 \<le> \<bar>x\<bar>"
  shows "round64 x = fl x"
proof -
  from assms have "0 \<le> binade 2200 \<bar>x\<bar>" by (rule binade_nonneg)
  then have "max (binade 2200 \<bar>x\<bar>) (- 1022) = binade 2200 \<bar>x\<bar>" by simp
  then show ?thesis by (simp add: round64_def fl_def)
qed

lemma round64_whole: "x \<in> \<int> \<Longrightarrow> \<bar>x\<bar> < 9007199254740992 \<Longrightarrow> round64 x = x"
proof (cases "x = 0")
  case True
  then show ?thesis by (simp add: round64_def)
next
  case False
  assume x: "x \<in> \<int>" and b: "\<bar>x\<bar> < 9007199254740992"
  from x False have "1 \<le> \<bar>x\<bar>"
    by (auto elim!: Ints_cases)
  then have "round64 x = fl x" by (rule round64_eq_fl)
  with x b show ?thesis by (simp add: fl_whole)
qed

subsection \<open>Quotients\<close>







subsection \<open>The rounding at the numbers of the examples\<close>






lemma fl_three_halves: "fl (3 / 2) = 3 / 2"
  by (simp add: fl_def roundHalfEven_def Let_def eval_nat_numeral)



























lemma round64_half: "round64 (1 / 2) = 1 / 2"
  by (simp add: round64_def roundHalfEven_def Let_def eval_nat_numeral)

lemma fee_80: "round64 (80 * fl (1 / 10)) = 8"
  unfolding fl_one_tenth by (simp add: round64_def roundHalfEven_def Let_def eval_nat_numeral)

lemma fee_20: "round64 (20 * fl (1 / 10)) = 2"
  unfolding fl_one_tenth by (simp add: round64_def roundHalfEven_def Let_def eval_nat_numeral)


section \<open>Ghost players are the players without a valid name\<close>




section \<open>Total chips\<close>















section \<open>The stable sort\<close>

lemma mset_insertBy: "mset (insertBy cmp x xs) = add_mset x (mset xs)"
  by (induction xs) simp_all

lemma mset_Array_sort: "mset (Array_sort cmp xs) = mset xs"
  unfolding Array_sort_def by (induction xs) (simp_all add: mset_insertBy)

lemma set_insertBy: "set (insertBy cmp x xs) = insert x (set xs)"
  by (induction xs) auto

lemma set_Array_sort: "set (Array_sort cmp xs) = set xs"
  unfolding Array_sort_def by (induction xs) (simp_all add: set_insertBy)

lemma sorted_insertBy:
  assumes total: "\<And>a b. a \<in> A \<Longrightarrow> b \<in> A \<Longrightarrow> notPositive (cmp a b) \<or> notPositive (cmp b a)"
      and trans: "\<And>a b c. a \<in> A \<Longrightarrow> b \<in> A \<Longrightarrow> c \<in> A
                    \<Longrightarrow> notPositive (cmp a b) \<Longrightarrow> notPositive (cmp b c) \<Longrightarrow> notPositive (cmp a c)"
      and "x \<in> A" and "set xs \<subseteq> A"
      and "sorted_wrt (\<lambda>a b. notPositive (cmp a b)) xs"
  shows "sorted_wrt (\<lambda>a b. notPositive (cmp a b)) (insertBy cmp x xs)"
  using assms(4,5)
proof (induction xs)
  case Nil
  then show ?case by simp
next
  case (Cons y ys)
  from Cons.prems have y: "y \<in> A" and ys: "set ys \<subseteq> A" by simp_all
  show ?case
  proof (cases "notPositive (cmp x y)")
    case True
    have "notPositive (cmp x z)" if "z \<in> set ys" for z
    proof -
      from that Cons.prems have "notPositive (cmp y z)" by simp
      with True show ?thesis
        using trans [of x y z] assms(3) y ys that by blast
    qed
    with True Cons.prems show ?thesis by simp
  next
    case False
    with total [OF assms(3) y] have "notPositive (cmp y x)" by blast
    with False Cons ys show ?thesis by (auto simp: set_insertBy)
  qed
qed

lemma sorted_Array_sort:
  assumes "\<And>a b. a \<in> A \<Longrightarrow> b \<in> A \<Longrightarrow> notPositive (cmp a b) \<or> notPositive (cmp b a)"
      and "\<And>a b c. a \<in> A \<Longrightarrow> b \<in> A \<Longrightarrow> c \<in> A
                    \<Longrightarrow> notPositive (cmp a b) \<Longrightarrow> notPositive (cmp b c) \<Longrightarrow> notPositive (cmp a c)"
      and "set xs \<subseteq> A"
  shows "sorted_wrt (\<lambda>a b. notPositive (cmp a b)) (Array_sort cmp xs)"
  using assms(3)
proof (induction xs)
  case Nil
  show ?case by (simp add: Array_sort_def)
next
  case (Cons x xs)
  then have s: "sorted_wrt (\<lambda>a b. notPositive (cmp a b)) (Array_sort cmp xs)" by simp
  have "sorted_wrt (\<lambda>a b. notPositive (cmp a b)) (insertBy cmp x (Array_sort cmp xs))"
  proof (rule sorted_insertBy [where A = A])
    show "x \<in> A" using Cons.prems by simp
    show "set (Array_sort cmp xs) \<subseteq> A" using Cons.prems by (simp add: set_Array_sort)
    show "sorted_wrt (\<lambda>a b. notPositive (cmp a b)) (Array_sort cmp xs)" by (rule s)
  qed (erule (1) assms(1), erule (4) assms(2))
  then show ?case by (simp add: Array_sort_def)
qed

lemma filter_insertBy:
  assumes "\<And>y. P x \<Longrightarrow> P y \<Longrightarrow> notPositive (cmp x y)"
  shows "filter P (insertBy cmp x xs) = filter P (x # xs)"
  using assms by (induction xs) auto

lemma filter_Array_sort:
  assumes "\<And>x y. P x \<Longrightarrow> P y \<Longrightarrow> notPositive (cmp x y)"
  shows "filter P (Array_sort cmp xs) = filter P xs"
  unfolding Array_sort_def
  by (induction xs) (simp_all add: filter_insertBy assms)

section \<open>Ranking order\<close>



lemma rankable_iff:
  "rankable r = (performanceRatio r \<noteq> NaN
      \<and> (\<forall>x. performanceRatio r = Finite x \<longrightarrow> onGrid x)
      \<and> onGrid (out r))"
  by (cases "performanceRatio r") (simp_all add: rankable_def)

lemma lessNumber_total: "a \<noteq> NaN \<Longrightarrow> b \<noteq> NaN \<Longrightarrow> lessNumber a b \<or> lessNumber b a \<or> a = b"
  by (cases a; cases b) auto

lemma lessNumber_trans: "lessNumber a b \<Longrightarrow> lessNumber b c \<Longrightarrow> lessNumber a c"
  by (cases a; cases b; cases c) auto

lemma lessNumber_irrefl: "\<not> lessNumber a a"
  by (cases a) auto

lemma strictEquals_eq: "a \<noteq> NaN \<Longrightarrow> strictEquals a b = (a = b)"
  by (cases a; cases b) auto

lemma notPositive_minus64:
  assumes "a \<noteq> NaN" and "b \<noteq> NaN" and "a \<noteq> b"
      and "\<And>x. a = Finite x \<Longrightarrow> onGrid x" and "\<And>x. b = Finite x \<Longrightarrow> onGrid x"
  shows "notPositive (minus64 b a) = lessNumber b a"
proof (cases a)
  case fa: (Finite x)
  show ?thesis
  proof (cases b)
    case fb: (Finite y)
    from assms(4) [OF fa] assms(5) [OF fb] have "(fl (y - x) \<le> 0) = (y \<le> x)"
      by (intro fl_diff_sign_grid)
    with assms(3) fa fb show ?thesis by (auto simp: notPositive_def)
  qed (use assms fa in \<open>simp_all add: notPositive_def\<close>)
next
  case PosInfinity
  with assms show ?thesis by (cases b) (simp_all add: notPositive_def)
next
  case NegInfinity
  with assms show ?thesis by (cases b) (simp_all add: notPositive_def)
next
  case NaN
  with assms show ?thesis by simp
qed

lemma compareRanked_notPositive:
  assumes "rankable a" and "rankable b"
  shows "notPositive (compareRanked a b) = ranksBefore a b"
proof (cases "performanceRatio a = performanceRatio b")
  case True
  from assms have "(fl (out b - out a) \<le> 0) = (out b \<le> out a)"
    by (intro fl_diff_sign_grid) (simp_all add: rankable_iff)
  with True assms(1) show ?thesis
    by (simp add: compareRanked_def ranksBefore_def strictEquals_eq rankable_iff
          notPositive_def lessNumber_irrefl)
next
  case False
  with assms have "notPositive (minus64 (performanceRatio b) (performanceRatio a))
      = lessNumber (performanceRatio b) (performanceRatio a)"
    by (intro notPositive_minus64) (simp_all add: rankable_iff)
  with False assms(1) show ?thesis
    by (simp add: compareRanked_def ranksBefore_def strictEquals_eq rankable_iff)
qed

lemma ranksBefore_total:
  assumes "rankable a" and "rankable b"
  shows "ranksBefore a b \<or> ranksBefore b a"
  using lessNumber_total [of "performanceRatio a" "performanceRatio b"] assms
  by (auto simp: ranksBefore_def rankable_iff)

lemma ranksBefore_trans:
  assumes "ranksBefore a b" and "ranksBefore b c"
  shows "ranksBefore a c"
  using assms lessNumber_trans [of "performanceRatio c" "performanceRatio b" "performanceRatio a"]
  by (auto simp: ranksBefore_def)





lemma compareRanked_same_keys:
  assumes "performanceRatio a = performanceRatio b" and "out a = out b"
  shows "notPositive (compareRanked a b)"
proof (cases "strictEquals (performanceRatio a) (performanceRatio b)")
  case True
  with assms(2) show ?thesis
    by (simp add: compareRanked_def notPositive_def fl_0)
next
  case False
  with assms(1) have "performanceRatio b = NaN"
    by (cases "performanceRatio b") simp_all
  with assms(1) False show ?thesis
    by (simp add: compareRanked_def notPositive_def)
qed



text \<open>
  The comparator of the ranking is a total preorder on the rows it is given, and for
  such a comparator the stable sort is determined by its specification: a list that has
  the elements of the input, is in ranking order and keeps the input order among the
  elements of equal rank is the list \<open>Array_sort\<close> returns. The choice of insertion
  sort as the model of \<^verbatim>\<open>Array.prototype.sort\<close> therefore does not matter.
\<close>

lemma stable_sort_unique:
  fixes xs ys :: "RankedPlayer list"
  assumes m: "mset ys = mset xs"
      and r: "\<forall>x \<in> set xs. rankable x"
      and s: "sorted_wrt ranksBefore ys"
      and f: "\<And>\<rho> v. filter (\<lambda>r. performanceRatio r = \<rho> \<and> out r = v) ys
                       = filter (\<lambda>r. performanceRatio r = \<rho> \<and> out r = v) xs"
  shows "ys = Array_sort compareRanked xs"
proof -
  let ?rank = "\<lambda>v. case v of PosInfinity \<Rightarrow> (0::int, 0::real) | Finite x \<Rightarrow> (1, - x)
                        | NegInfinity \<Rightarrow> (2, 0) | NaN \<Rightarrow> (3, 0)"
  let ?key = "\<lambda>r. (?rank (performanceRatio r), - out r)"
  have le: "ranksBefore a b \<longleftrightarrow> ?key a \<le> ?key b" if "rankable a" "rankable b" for a b
  proof -
    from that have n: "performanceRatio a \<noteq> NaN" "performanceRatio b \<noteq> NaN"
      by (simp_all add: rankable_iff)
    then show ?thesis
      by (cases "performanceRatio a"; cases "performanceRatio b")
         (auto simp: ranksBefore_def less_eq_prod_def)
  qed
  have eq: "(?key k = ?key r) = (performanceRatio r = performanceRatio k \<and> out r = out k)" for k r
    by (cases "performanceRatio k"; cases "performanceRatio r") auto
  from m have sy: "set ys = set xs" by (rule mset_eq_setD)
  have 1: "sort_key ?key xs = ys"
  proof (rule properties_for_sort_key [OF m])
    have "sorted_wrt (\<lambda>a b. ?key a \<le> ?key b) ys"
      using s
    proof (rule sorted_wrt_mono_rel [rotated])
      fix a b assume "a \<in> set ys" "b \<in> set ys" "ranksBefore a b"
      with r sy show "?key a \<le> ?key b" using le [of a b] by blast
    qed
    then show "sorted (map ?key ys)"
      by (simp add: sorted_map)
    show "\<And>k. k \<in> set ys \<Longrightarrow> filter (\<lambda>x. ?key k = ?key x) ys = filter (\<lambda>x. ?key k = ?key x) xs"
      unfolding eq by (rule f)
  qed
  have 2: "sort_key ?key xs = Array_sort compareRanked xs"
  proof (rule properties_for_sort_key)
    show "mset (Array_sort compareRanked xs) = mset xs"
      by (rule mset_Array_sort)
    have "sorted_wrt (\<lambda>a b. notPositive (compareRanked a b)) (Array_sort compareRanked xs)"
    proof (rule sorted_Array_sort [where A = "{r. rankable r}"])
      show "set xs \<subseteq> {r. rankable r}" using r by auto
    next
      fix a b assume "a \<in> {r. rankable r}" "b \<in> {r. rankable r}"
      then show "notPositive (compareRanked a b) \<or> notPositive (compareRanked b a)"
        using ranksBefore_total [of a b] by (simp add: compareRanked_notPositive)
    next
      fix a b c assume "a \<in> {r. rankable r}" "b \<in> {r. rankable r}" "c \<in> {r. rankable r}"
        and "notPositive (compareRanked a b)" "notPositive (compareRanked b c)"
      then show "notPositive (compareRanked a c)"
        using ranksBefore_trans [of a b c] by (simp add: compareRanked_notPositive)
    qed
    then have "sorted_wrt (\<lambda>a b. ?key a \<le> ?key b) (Array_sort compareRanked xs)"
    proof (rule sorted_wrt_mono_rel [rotated])
      fix a b assume "a \<in> set (Array_sort compareRanked xs)" "b \<in> set (Array_sort compareRanked xs)"
        and n: "notPositive (compareRanked a b)"
      with r have "rankable a" "rankable b" by (simp_all add: set_Array_sort)
      with n show "?key a \<le> ?key b"
        using le [of a b] by (simp add: compareRanked_notPositive)
    qed
    then show "sorted (map ?key (Array_sort compareRanked xs))"
      by (simp add: sorted_map)
    show "\<And>k. k \<in> set (Array_sort compareRanked xs) \<Longrightarrow>
            filter (\<lambda>x. ?key k = ?key x) (Array_sort compareRanked xs) = filter (\<lambda>x. ?key k = ?key x) xs"
      unfolding eq by (rule filter_Array_sort) (simp add: compareRanked_same_keys)
  qed
  from 1 2 show ?thesis by simp
qed







section \<open>Chip audit\<close>





lemma isBalanced_tenth: "isBalanced g = (\<bar>chipsDifference g\<bar> < 1 / 10)"
  unfolding isBalanced_def chipsDifference_def by (rule abs_fl_tenth)











section \<open>Performance ratio\<close>






section \<open>The scenarios of the specification\<close>

text \<open>
  The figures the specification gives for its four scenarios are the ones the model
  computes.
\<close>

lemmas eval_defs =
  validPlayers_def isValidPlayer_def trim_def isWhiteSpace_def calculateTotals_def
  playerTotals_def rebuyTotals_def HOUSE_FEE_FIXED_def Let_def rankRow_def orZero_def
  paidCash64_def totalCostCash64_def pendingCash64_def run_def addRebuy_def
  toggleRebuyStatus_def submitCashout_def rankedPlayers_def Array_sort_def compareRanked_def
  div64_def overflow64_def notPositive_def
  totalCashoutDeclared_def chipsDifference_def differenceLine_def
  fl_whole round64_whole round64_half fl_three_halves fee_80 fee_20

lemma scenario_A:
  "investedChips (rankRow scenarioA (hd (players scenarioA))) = 40"
  "totalChips (calculateTotals scenarioA) = 40"
  "totalFees (calculateTotals scenarioA) = 10"
  "pendingCash64 scenarioA (hd (players scenarioA)) = 50"
  by (simp_all add: scenarioA_def eval_defs)

lemma scenario_B:
  "investedChips (rankRow scenarioB (hd (players scenarioB))) = 70"
  "paidCash64 scenarioB (hd (players scenarioB)) = 30"
  "pendingCash64 scenarioB (hd (players scenarioB)) = 50"
  by (simp_all add: scenarioB_def scenarioA_def eval_defs)

lemma scenario_C:
  "map (\<lambda>r. (name r, investedChips r, performanceRatio r, rankingFee r, net r))
       (rankedPlayers scenarioC)
     = [(''Bia'', 40, Finite 2, 8, 72), (''Ana'', 40, Finite (1 / 2), 2, 18)]"
  "map getPoints [0, 1, 2, 3] = [20, 15, 10, 5]"
  by (simp_all add: scenarioC_def eval_defs getPoints_def)

lemma scenario_D:
  "totalChips (calculateTotals scenarioD) = 80"
  "totalCashoutDeclared scenarioD = 75"
  "chipsDifference scenarioD = 5"
  "\<not> isBalanced scenarioD"
  "differenceLine scenarioD = Some (Faltam 5)"
  by (simp_all add: scenarioD_def scenarioC_def eval_defs isBalanced_tenth)

end
